theory Spec2Isabelle
  imports Complex_Main "HOL-Library.Log_Nat"
begin

section \<open>Numbers\<close>

text \<open>
  A JavaScript number is a double: a finite one, an infinity or NaN. A finite double is a
  real \<open>m * 2 ^ e\<close> with \<open>\<bar>m\<bar> < 2 ^ 53\<close> and \<open>- 1074 \<le> e \<le> 971\<close>; the numbers of a
  program are the \<open>Finite x\<close> with \<open>is_double x\<close>. The two zeros are one value here: no
  operation of the facade tells them apart.
\<close>

datatype number = Finite real | PosInfinity | NegInfinity | NaN

definition is_double :: "real \<Rightarrow> bool" where
  "is_double x = (\<exists>m e. x = of_int m * 2 powi e \<and> \<bar>m\<bar> < 2 ^ 53 \<and> - 1074 \<le> e \<and> e \<le> 971)"

text \<open>
  The result of an arithmetic operation is its exact result rounded to the nearest double,
  a tie going to the double with the even significand. The doubles around \<open>x\<close> are the
  multiples of \<open>ulp x\<close>, which is \<open>2 ^ (b - 52)\<close> for the binade
  \<open>2 ^ b \<le> \<bar>x\<bar> < 2 ^ (b + 1)\<close> of \<open>x\<close>, and \<open>2 ^ - 1074\<close> for every \<open>x\<close> below
  \<open>2 ^ - 1022\<close>. The exponent \<open>b\<close>, which is \<open>\<lfloor>log 2 \<bar>x\<bar>\<rfloor>\<close> (lemma \<open>exponent_log\<close>
  below), is computed from the bit length of the integer part of \<open>\<bar>x\<bar>\<close>, or from that
  of the reciprocal when \<open>\<bar>x\<bar> < 1\<close>. A rounded result of magnitude \<open>2 ^ 1024\<close> or more is an
  infinity.
\<close>

definition exponent :: "real \<Rightarrow> int" where
  "exponent x =
     (if 1 \<le> \<bar>x\<bar> then bitlen \<lfloor>\<bar>x\<bar>\<rfloor> - 1
      else - bitlen (\<lceil>1 / \<bar>x\<bar>\<rceil> - 1))"

definition binade :: "real \<Rightarrow> int" where
  "binade x = max (exponent x) (- 1022)"

definition ulp :: "real \<Rightarrow> real" where
  "ulp x = 2 powi (binade x - 52)"

definition round_even :: "real \<Rightarrow> int" where
  "round_even q =
     (let k = \<lfloor>q\<rfloor>; f = q - of_int k
      in if f < 1 / 2 then k
         else if 1 / 2 < f then k + 1
         else if even k then k else k + 1)"

definition fl :: "real \<Rightarrow> real" where
  "fl x = (if x = 0 then 0 else of_int (round_even (x / ulp x)) * ulp x)"

definition Number_of_real :: "real \<Rightarrow> number" where
  "Number_of_real v =
     (if 2 ^ 1024 \<le> fl v then PosInfinity
      else if fl v \<le> - (2 ^ 1024) then NegInfinity
      else Finite (fl v))"

text \<open>The product of two numbers, as the operator \<^verbatim>\<open>*\<close> computes it.\<close>

fun Number_times :: "number \<Rightarrow> number \<Rightarrow> number" where
  "Number_times NaN y = NaN"
| "Number_times x NaN = NaN"
| "Number_times (Finite x) (Finite y) = Number_of_real (x * y)"
| "Number_times (Finite x) PosInfinity =
     (if x = 0 then NaN else if 0 < x then PosInfinity else NegInfinity)"
| "Number_times (Finite x) NegInfinity =
     (if x = 0 then NaN else if 0 < x then NegInfinity else PosInfinity)"
| "Number_times PosInfinity (Finite y) =
     (if y = 0 then NaN else if 0 < y then PosInfinity else NegInfinity)"
| "Number_times NegInfinity (Finite y) =
     (if y = 0 then NaN else if 0 < y then NegInfinity else PosInfinity)"
| "Number_times PosInfinity PosInfinity = PosInfinity"
| "Number_times PosInfinity NegInfinity = NegInfinity"
| "Number_times NegInfinity PosInfinity = NegInfinity"
| "Number_times NegInfinity NegInfinity = PosInfinity"

text \<open>
  \<^verbatim>\<open>Math.round\<close> gives the integer nearest to a finite number, a half going upwards,
  and leaves an infinity and NaN as they are. The integer is exact: it is a double
  whenever its argument is.
\<close>

definition nearest_integer :: "real \<Rightarrow> int" where
  "nearest_integer x = \<lfloor>x + 1 / 2\<rfloor>"

fun Math_round :: "number \<Rightarrow> number" where
  "Math_round (Finite x) = Finite (of_int (nearest_integer x))"
| "Math_round PosInfinity = PosInfinity"
| "Math_round NegInfinity = NegInfinity"
| "Math_round NaN = NaN"

section \<open>Values, errors and results\<close>

text \<open>
  The facade of \<^verbatim>\<open>src/index.js\<close> stores arbitrary JavaScript values under string keys.
  Values are modelled by the JSON-shaped part of the language: \<^verbatim>\<open>undefined\<close>,
  \<^verbatim>\<open>null\<close>, booleans, numbers, strings, arrays and plain objects (a list of own
  properties in insertion order, none of them callable; a well-formed object has no key
  twice, and a lookup takes the first). Strings are HOL strings, so a code unit is an
  8-bit character.

  Every method of the facade returns a promise. A promise that is rejected with an
  exception is \<open>Inl\<close> of the exception, a promise that resolves is \<open>Inr\<close> of the value
  together with the store as the call left it.
\<close>

datatype jsval =
    Undefined
  | Null
  | Bool bool
  | Num number
  | Str string
  | Arr "jsval list"
  | Obj "(string \<times> jsval) list"

datatype error = SyntaxError | TypeError | Unrepresentable | Failure string

type_synonym 'a result = "error + 'a"

definition and_then :: "'a result \<Rightarrow> ('a \<Rightarrow> 'b result) \<Rightarrow> 'b result" where
  "and_then r f = (case r of Inl e \<Rightarrow> Inl e | Inr x \<Rightarrow> f x)"

section \<open>The built-in Map\<close>

text \<open>
  A JavaScript \<^verbatim>\<open>Map\<close> keeps its entries in insertion order; \<^verbatim>\<open>set\<close> on a key that
  is present replaces the value where the entry stands, and appends a new entry otherwise.
  \<^verbatim>\<open>get\<close> of an absent key is \<^verbatim>\<open>undefined\<close>, \<^verbatim>\<open>delete\<close> removes the entry
  of the key and tells whether there was one.
\<close>

type_synonym jsmap = "(string \<times> jsval) list"

fun Map_set :: "string \<Rightarrow> jsval \<Rightarrow> jsmap \<Rightarrow> jsmap" where
  "Map_set k v [] = [(k, v)]"
| "Map_set k v ((k', v') # m) = (if k' = k then (k, v) # m else (k', v') # Map_set k v m)"

fun Map_has :: "string \<Rightarrow> jsmap \<Rightarrow> bool" where
  "Map_has k [] = False"
| "Map_has k ((k', v') # m) = (if k' = k then True else Map_has k m)"

fun Map_get :: "string \<Rightarrow> jsmap \<Rightarrow> jsval" where
  "Map_get k [] = Undefined"
| "Map_get k ((k', v') # m) = (if k' = k then v' else Map_get k m)"

fun Map_remove :: "string \<Rightarrow> jsmap \<Rightarrow> jsmap" where
  "Map_remove k [] = []"
| "Map_remove k ((k', v') # m) =
     (if k' = k then Map_remove k m else (k', v') # Map_remove k m)"

definition Map_delete :: "string \<Rightarrow> jsmap \<Rightarrow> bool \<times> jsmap" where
  "Map_delete k m = (Map_has k m, Map_remove k m)"

definition Map_clear :: "jsmap \<Rightarrow> jsmap" where
  "Map_clear m = []"

text \<open>The entries of a Map that the facade built have pairwise different keys.\<close>

definition Map_wf :: "jsmap \<Rightarrow> bool" where
  "Map_wf m = distinct (map fst m)"

section \<open>Strings\<close>

text \<open>
  \<^verbatim>\<open>String.prototype.replace\<close> with a string pattern replaces the leftmost occurrence
  of the pattern and nothing else; the replacement used by the facade is the empty
  string, which has no replacement patterns in it.
\<close>

fun String_replace :: "string \<Rightarrow> string \<Rightarrow> string \<Rightarrow> string" where
  "String_replace pat rep [] = (if pat = [] then rep else [])"
| "String_replace pat rep (c # cs) =
     (if take (length pat) (c # cs) = pat then rep @ drop (length pat) (c # cs)
      else c # String_replace pat rep cs)"

section \<open>Options, stores and adapters\<close>

text \<open>
  \<^verbatim>\<open>this.options\<close> after the constructor has merged the defaults, the first argument
  and the second. The store is kept beside the options, because several instances may
  share one store object.
\<close>

record options =
  namespace :: string
  serialize :: "jsval \<Rightarrow> jsval result"
  deserialize :: "jsval \<Rightarrow> jsval result"
  adapter :: "string option"
  uri :: "string option"

text \<open>
  The store is either the built-in Map, which also carries the \<^verbatim>\<open>namespace\<close> property
  that the constructor assigns to it, or an instance of one of the adapter modules
  \<^verbatim>\<open>./adapters/*\<close>. The adapter modules lie outside \<^verbatim>\<open>src/index.js\<close>: an adapter is an
  opaque state with the operations the facade calls on it, taken as the parameter \<open>A\<close>.
\<close>

datatype 'a store = MapStore "string option" jsmap | AdapterStore 'a

record 'a adapters =
  a_new :: "string \<Rightarrow> options \<Rightarrow> 'a result"
  a_set_namespace :: "string \<Rightarrow> 'a \<Rightarrow> 'a"
  a_set :: "string \<Rightarrow> jsval \<Rightarrow> 'a \<Rightarrow> 'a result"
  a_get :: "string \<Rightarrow> 'a \<Rightarrow> jsval result"
  a_delete :: "string \<Rightarrow> 'a \<Rightarrow> (jsval \<times> 'a) result"
  a_clear :: "'a \<Rightarrow> (jsval \<times> 'a) result"
  a_all :: "'a \<Rightarrow> jsval result"

text \<open>The calls \<^verbatim>\<open>this.options.store.set(key, value)\<close> and its siblings, dispatched on the store.\<close>

definition store_set :: "'a adapters \<Rightarrow> string \<Rightarrow> jsval \<Rightarrow> 'a store \<Rightarrow> 'a store result" where
  "store_set A key v st =
     (case st of
        MapStore ns m \<Rightarrow> Inr (MapStore ns (Map_set key v m))
      | AdapterStore a \<Rightarrow> and_then (a_set A key v a) (\<lambda>a'. Inr (AdapterStore a')))"

definition store_get :: "'a adapters \<Rightarrow> string \<Rightarrow> 'a store \<Rightarrow> jsval result" where
  "store_get A key st =
     (case st of
        MapStore ns m \<Rightarrow> Inr (Map_get key m)
      | AdapterStore a \<Rightarrow> a_get A key a)"

definition store_delete :: "'a adapters \<Rightarrow> string \<Rightarrow> 'a store \<Rightarrow> (jsval \<times> 'a store) result" where
  "store_delete A key st =
     (case st of
        MapStore ns m \<Rightarrow> Inr (Bool (fst (Map_delete key m)), MapStore ns (snd (Map_delete key m)))
      | AdapterStore a \<Rightarrow> and_then (a_delete A key a) (\<lambda>(r, a'). Inr (r, AdapterStore a')))"

definition store_clear :: "'a adapters \<Rightarrow> 'a store \<Rightarrow> (jsval \<times> 'a store) result" where
  "store_clear A st =
     (case st of
        MapStore ns m \<Rightarrow> Inr (Undefined, MapStore ns (Map_clear m))
      | AdapterStore a \<Rightarrow> and_then (a_clear A a) (\<lambda>(r, a'). Inr (r, AdapterStore a')))"

section \<open>The facade: keys, set, get, has, delete, clear\<close>

definition addKeyPrefix :: "options \<Rightarrow> string \<Rightarrow> string" where
  "addKeyPrefix opts key = namespace opts @ '':'' @ key"

definition removeKeyPrefix :: "options \<Rightarrow> string \<Rightarrow> string" where
  "removeKeyPrefix opts key = String_replace (namespace opts @ '':'') [] key"

text \<open>
  \<^verbatim>\<open>set\<close>: the serialize hook runs first and may throw, which rejects the promise
  before the store is touched; what it returns is dropped, and the store receives the
  value as it was given.
\<close>

definition Endb_set ::
  "'a adapters \<Rightarrow> options \<Rightarrow> string \<Rightarrow> jsval \<Rightarrow> 'a store \<Rightarrow> (jsval \<times> 'a store) result" where
  "Endb_set A opts key v st =
     (let key' = addKeyPrefix opts key in
      and_then (serialize opts v) (\<lambda>_.
      and_then (store_set A key' v st) (\<lambda>st'.
      Inr (Bool True, st'))))"

definition Endb_get :: "'a adapters \<Rightarrow> options \<Rightarrow> string \<Rightarrow> 'a store \<Rightarrow> jsval result" where
  "Endb_get A opts key st =
     (let key' = addKeyPrefix opts key in
      and_then (store_get A key' st) (\<lambda>data.
      if data = Undefined then Inr Undefined else Inr data))"

text \<open>\<^verbatim>\<open>typeof x === 'object'\<close> on the values of the model.\<close>

definition typeof_object :: "jsval \<Rightarrow> bool" where
  "typeof_object x = (case x of Null \<Rightarrow> True | Arr xs \<Rightarrow> True | Obj ps \<Rightarrow> True | _ \<Rightarrow> False)"

text \<open>
  \<^verbatim>\<open>has\<close>: on a Map the answer is \<^verbatim>\<open>Map.prototype.has\<close>; on an adapter the method
  calls \<^verbatim>\<open>this.get\<close> with the key it has already prefixed.
\<close>

definition Endb_has :: "'a adapters \<Rightarrow> options \<Rightarrow> string \<Rightarrow> 'a store \<Rightarrow> jsval result" where
  "Endb_has A opts key st =
     (let key' = addKeyPrefix opts key in
      case st of
        MapStore ns m \<Rightarrow> Inr (Bool (Map_has key' m))
      | AdapterStore a \<Rightarrow>
          and_then (Endb_get A opts key' st) (\<lambda>data. Inr (Bool (typeof_object data))))"

definition Endb_delete ::
  "'a adapters \<Rightarrow> options \<Rightarrow> string \<Rightarrow> 'a store \<Rightarrow> (jsval \<times> 'a store) result" where
  "Endb_delete A opts key st = store_delete A (addKeyPrefix opts key) st"

definition Endb_clear :: "'a adapters \<Rightarrow> options \<Rightarrow> 'a store \<Rightarrow> (jsval \<times> 'a store) result" where
  "Endb_clear A opts st = store_clear A st"

section \<open>The built-in JSON functions\<close>

text \<open>
  The default hooks are \<^verbatim>\<open>JSON.stringify\<close> and \<^verbatim>\<open>JSON.parse\<close>. Both need the text of
  a number. An integer below \<open>2 ^ 53\<close> in magnitude prints as its decimal digits; the
  text of any other finite number (the shortest decimal that reads back as the same
  double) is left to the parameter \<open>nt\<close>.
\<close>

definition code_unit :: "char \<Rightarrow> nat" where
  "code_unit c = of_char c"

definition is_digit :: "char \<Rightarrow> bool" where
  "is_digit c = (48 \<le> code_unit c \<and> code_unit c \<le> 57)"

definition digit_val :: "char \<Rightarrow> int" where
  "digit_val c = int (code_unit c) - 48"

definition digit_char :: "int \<Rightarrow> char" where
  "digit_char n = char_of (48 + n)"

function int_digits :: "int \<Rightarrow> string" where
  "int_digits n =
     (if n < 10 then [digit_char n] else int_digits (n div 10) @ [digit_char (n mod 10)])"
  by pat_completeness auto
termination by (relation "measure nat") auto

definition Number_toString :: "(real \<Rightarrow> string) \<Rightarrow> number \<Rightarrow> string" where
  "Number_toString nt n =
     (case n of
        NaN \<Rightarrow> ''NaN''
      | PosInfinity \<Rightarrow> ''Infinity''
      | NegInfinity \<Rightarrow> ''-Infinity''
      | Finite x \<Rightarrow>
          if of_int \<lfloor>x\<rfloor> = x \<and> \<bar>x\<bar> < 2 ^ 53
          then (if x < 0 then ''-'' else []) @ int_digits \<bar>\<lfloor>x\<rfloor>\<bar>
          else nt x)"

fun join :: "string \<Rightarrow> string list \<Rightarrow> string" where
  "join sep [] = []"
| "join sep [x] = x"
| "join sep (x # y # ys) = x @ sep @ join sep (y # ys)"

text \<open>
  The conversion of a value to a string. An array joins the strings of its elements. A
  plain object inherits \<^verbatim>\<open>Object.prototype.toString\<close>, unless it has an own property
  of that name: an own property of the model is not callable, \<^verbatim>\<open>valueOf\<close> (own and not
  callable, or inherited and returning the object) yields no primitive either, and the
  conversion throws a TypeError.
\<close>

fun ToString :: "(real \<Rightarrow> string) \<Rightarrow> jsval \<Rightarrow> string result"
  and ToString_items :: "(real \<Rightarrow> string) \<Rightarrow> jsval list \<Rightarrow> string list result" where
  "ToString nt Undefined = Inr ''undefined''"
| "ToString nt Null = Inr ''null''"
| "ToString nt (Bool b) = Inr (if b then ''true'' else ''false'')"
| "ToString nt (Num n) = Inr (Number_toString nt n)"
| "ToString nt (Str s) = Inr s"
| "ToString nt (Arr xs) = and_then (ToString_items nt xs) (\<lambda>items. Inr (join '','' items))"
| "ToString nt (Obj ps) =
     (if Map_has ''toString'' ps then Inl TypeError else Inr ''[object Object]'')"
| "ToString_items nt [] = Inr []"
| "ToString_items nt (x # xs) =
     and_then (if x = Undefined \<or> x = Null then Inr [] else ToString nt x) (\<lambda>item.
     and_then (ToString_items nt xs) (\<lambda>items.
     Inr (item # items)))"

definition hex_char :: "nat \<Rightarrow> char" where
  "hex_char n = (if n < 10 then char_of (48 + n) else char_of (87 + n))"

definition quote_char :: "char \<Rightarrow> string" where
  "quote_char c =
     (let n = code_unit c in
      if n = 0x22 then [CHR 0x5C, CHR 0x22]
      else if n = 0x5C then [CHR 0x5C, CHR 0x5C]
      else if n = 0x08 then [CHR 0x5C, CHR ''b'']
      else if n = 0x0C then [CHR 0x5C, CHR ''f'']
      else if n = 0x0A then [CHR 0x5C, CHR ''n'']
      else if n = 0x0D then [CHR 0x5C, CHR ''r'']
      else if n = 0x09 then [CHR 0x5C, CHR ''t'']
      else if n < 0x20 then [CHR 0x5C, CHR ''u'', CHR ''0'', CHR ''0'', hex_char (n div 16), hex_char (n mod 16)]
      else [c])"

definition QuoteJSONString :: "string \<Rightarrow> string" where
  "QuoteJSONString s = [CHR 0x22] @ concat (map quote_char s) @ [CHR 0x22]"

fun SerializeJSONProperty :: "(real \<Rightarrow> string) \<Rightarrow> jsval \<Rightarrow> string option"
  and SerializeJSONArray :: "(real \<Rightarrow> string) \<Rightarrow> jsval list \<Rightarrow> string list"
  and SerializeJSONObject :: "(real \<Rightarrow> string) \<Rightarrow> (string \<times> jsval) list \<Rightarrow> string list" where
  "SerializeJSONProperty nt Undefined = None"
| "SerializeJSONProperty nt Null = Some ''null''"
| "SerializeJSONProperty nt (Bool b) = Some (if b then ''true'' else ''false'')"
| "SerializeJSONProperty nt (Num n) =
     Some (case n of Finite x \<Rightarrow> Number_toString nt n | _ \<Rightarrow> ''null'')"
| "SerializeJSONProperty nt (Str s) = Some (QuoteJSONString s)"
| "SerializeJSONProperty nt (Arr xs) = Some (''['' @ join '','' (SerializeJSONArray nt xs) @ '']'')"
| "SerializeJSONProperty nt (Obj ps) = Some (''{'' @ join '','' (SerializeJSONObject nt ps) @ ''}'')"
| "SerializeJSONArray nt [] = []"
| "SerializeJSONArray nt (x # xs) =
     (case SerializeJSONProperty nt x of None \<Rightarrow> ''null'' | Some t \<Rightarrow> t) # SerializeJSONArray nt xs"
| "SerializeJSONObject nt [] = []"
| "SerializeJSONObject nt ((k, x) # ps) =
     (case SerializeJSONProperty nt x of
        None \<Rightarrow> SerializeJSONObject nt ps
      | Some t \<Rightarrow> (QuoteJSONString k @ '':'' @ t) # SerializeJSONObject nt ps)"

text \<open>
  \<^verbatim>\<open>JSON.stringify\<close> throws on a cyclic structure, on a BigInt and when a
  \<^verbatim>\<open>toJSON\<close> method throws; no value of the model is any of these, so on the model it
  always returns: a string, or \<^verbatim>\<open>undefined\<close> for \<^verbatim>\<open>undefined\<close>.
\<close>

definition JSON_stringify :: "(real \<Rightarrow> string) \<Rightarrow> jsval \<Rightarrow> jsval result" where
  "JSON_stringify nt v =
     Inr (case SerializeJSONProperty nt v of None \<Rightarrow> Undefined | Some t \<Rightarrow> Str t)"

text \<open>
  \<^verbatim>\<open>JSON.parse\<close> converts its argument to a string and reads it as one JSON text. The
  recursive descent is bounded by a fuel of twice the length of the text and two, which
  no text uses up (lemma \<open>parse_JSON_text_fuel\<close> below). An escape \<^verbatim>\<open>\uXXXX\<close> above
  \<open>0xFF\<close> has no character in a HOL string and is reported as \<open>Unrepresentable\<close>. A
  key that occurs twice in an object keeps its first position and its last value; the
  reordering of array-index keys is not modelled.
\<close>

definition is_ws :: "char \<Rightarrow> bool" where
  "is_ws c = (code_unit c = 0x09 \<or> code_unit c = 0x0A \<or> code_unit c = 0x0D \<or> code_unit c = 0x20)"

definition skip_ws :: "string \<Rightarrow> string" where
  "skip_ws s = dropWhile is_ws s"

definition hex_val :: "char \<Rightarrow> nat option" where
  "hex_val c =
     (let n = code_unit c in
      if 48 \<le> n \<and> n \<le> 57 then Some (n - 48)
      else if 65 \<le> n \<and> n \<le> 70 then Some (n - 55)
      else if 97 \<le> n \<and> n \<le> 102 then Some (n - 87)
      else None)"

definition parse_hex4 :: "string \<Rightarrow> nat option" where
  "parse_hex4 s =
     (case map hex_val (take 4 s) of
        [Some a, Some b, Some c, Some d] \<Rightarrow> Some (((a * 16 + b) * 16 + c) * 16 + d)
      | _ \<Rightarrow> None)"

text \<open>
  The escapes of one character: a quote, a backslash and a slash stand for themselves,
  \<^verbatim>\<open>b f n r t\<close> for the control characters.
\<close>

definition simple_escape :: "char \<Rightarrow> char option" where
  "simple_escape e =
     (if e = CHR 0x22 \<or> e = CHR 0x5C \<or> e = CHR ''/'' then Some e
      else if e = CHR ''b'' then Some (CHR 0x08)
      else if e = CHR ''f'' then Some (CHR 0x0C)
      else if e = CHR ''n'' then Some (CHR 0x0A)
      else if e = CHR ''r'' then Some (CHR 0x0D)
      else if e = CHR ''t'' then Some (CHR 0x09)
      else None)"

text \<open>
  The text after a backslash: the character the escape stands for, and how many
  characters of the text the escape takes.
\<close>

definition parse_escape :: "string \<Rightarrow> (char \<times> nat) result" where
  "parse_escape s =
     (case s of
        [] \<Rightarrow> Inl SyntaxError
      | e # r \<Rightarrow>
          if e = CHR ''u'' then
            (case parse_hex4 r of
               None \<Rightarrow> Inl SyntaxError
             | Some n \<Rightarrow> if n < 256 then Inr (char_of n, 5) else Inl Unrepresentable)
          else
            (case simple_escape e of
               None \<Rightarrow> Inl SyntaxError
             | Some c \<Rightarrow> Inr (c, 1)))"

text \<open>The characters of a string up to its closing quote, and the text after the quote.\<close>

fun parse_chars :: "string \<Rightarrow> string \<Rightarrow> (string \<times> string) result" where
  "parse_chars acc [] = Inl SyntaxError"
| "parse_chars acc (c # r) =
     (if code_unit c = 0x22 then Inr (rev acc, r)
      else if code_unit c < 0x20 then Inl SyntaxError
      else if code_unit c \<noteq> 0x5C then parse_chars (c # acc) r
      else (case parse_escape r of
              Inl e \<Rightarrow> Inl e
            | Inr (ch, k) \<Rightarrow> parse_chars (ch # acc) (drop k r)))"

definition digits_val :: "string \<Rightarrow> int" where
  "digits_val ds = foldl (\<lambda>n c. 10 * n + digit_val c) 0 ds"

text \<open>
  A JSON number is an optional minus sign, an integer part (\<^verbatim>\<open>0\<close>, or a non-zero digit
  and more digits), an optional fraction (a point and at least one digit) and an optional
  exponent (\<^verbatim>\<open>e\<close> or \<^verbatim>\<open>E\<close>, an optional sign, at least one digit).
\<close>

definition parse_int_part :: "string \<Rightarrow> (string \<times> string) option" where
  "parse_int_part s =
     (case s of
        [] \<Rightarrow> None
      | c # r \<Rightarrow>
          if c = CHR ''0'' then Some ([c], r)
          else if is_digit c then Some (takeWhile is_digit s, dropWhile is_digit s)
          else None)"

definition parse_frac_part :: "string \<Rightarrow> (string \<times> string) option" where
  "parse_frac_part s =
     (case s of
        [] \<Rightarrow> Some ([], s)
      | c # r \<Rightarrow>
          if c = CHR ''.'' then
            (if takeWhile is_digit r = [] then None
             else Some (takeWhile is_digit r, dropWhile is_digit r))
          else Some ([], s))"

definition parse_exp_sign :: "string \<Rightarrow> bool \<times> string" where
  "parse_exp_sign s =
     (case s of
        [] \<Rightarrow> (False, s)
      | d # r \<Rightarrow>
          if d = CHR ''-'' then (True, r)
          else if d = CHR ''+'' then (False, r)
          else (False, s))"

definition parse_exp_part :: "string \<Rightarrow> (int \<times> string) option" where
  "parse_exp_part s =
     (case s of
        [] \<Rightarrow> Some (0, s)
      | c # r \<Rightarrow>
          if c = CHR ''e'' \<or> c = CHR ''E'' then
            (case parse_exp_sign r of
               (neg, r') \<Rightarrow>
                 if takeWhile is_digit r' = [] then None
                 else Some (if neg then - digits_val (takeWhile is_digit r')
                            else digits_val (takeWhile is_digit r'),
                            dropWhile is_digit r'))
          else Some (0, s))"

text \<open>
  The exact value of the decimal numeral; the number it denotes is that value rounded to
  a double.
\<close>

definition number_value :: "bool \<Rightarrow> string \<Rightarrow> string \<Rightarrow> int \<Rightarrow> real" where
  "number_value neg ip fp ex =
     (let m = of_int (digits_val ip) + of_int (digits_val fp) / 10 ^ length fp;
          x = (if 0 \<le> ex then m * 10 ^ nat ex else m / 10 ^ nat (- ex))
      in if neg then - x else x)"

definition parse_number :: "string \<Rightarrow> (jsval \<times> string) result" where
  "parse_number s =
     (case (case s of [] \<Rightarrow> (False, s) | c # r \<Rightarrow> if c = CHR ''-'' then (True, r) else (False, s)) of
        (neg, s1) \<Rightarrow>
          (case parse_int_part s1 of
             None \<Rightarrow> Inl SyntaxError
           | Some (ip, s2) \<Rightarrow>
               (case parse_frac_part s2 of
                  None \<Rightarrow> Inl SyntaxError
                | Some (fp, s3) \<Rightarrow>
                    (case parse_exp_part s3 of
                       None \<Rightarrow> Inl SyntaxError
                     | Some (ex, s4) \<Rightarrow> Inr (Num (Number_of_real (number_value neg ip fp ex)), s4)))))"

definition starts_with :: "string \<Rightarrow> string \<Rightarrow> bool" where
  "starts_with p s = (take (length p) s = p)"

definition parse_literal :: "string \<Rightarrow> (jsval \<times> string) result" where
  "parse_literal s =
     (if starts_with ''null'' s then Inr (Null, drop 4 s)
      else if starts_with ''true'' s then Inr (Bool True, drop 4 s)
      else if starts_with ''false'' s then Inr (Bool False, drop 5 s)
      else Inl SyntaxError)"

text \<open>
  What follows a value inside an array or an object: a comma and more, or the closing
  bracket \<open>close\<close>.
\<close>

datatype separator = More string | Closed string

definition parse_separator :: "char \<Rightarrow> string \<Rightarrow> separator result" where
  "parse_separator close s =
     (case skip_ws s of
        [] \<Rightarrow> Inl SyntaxError
      | d # r \<Rightarrow>
          if d = CHR '','' then Inr (More (skip_ws r))
          else if d = close then Inr (Closed r)
          else Inl SyntaxError)"

text \<open>The key of a member with its colon, and the text at which the member's value starts.\<close>

definition parse_key :: "string \<Rightarrow> (string \<times> string) result" where
  "parse_key s =
     (case s of
        [] \<Rightarrow> Inl SyntaxError
      | q # s1 \<Rightarrow>
          if q \<noteq> CHR 0x22 then Inl SyntaxError
          else
            (case parse_chars [] s1 of
               Inl e \<Rightarrow> Inl e
             | Inr (k, s2) \<Rightarrow>
                 (case skip_ws s2 of
                    [] \<Rightarrow> Inl SyntaxError
                  | c # s3 \<Rightarrow> if c = CHR '':'' then Inr (k, skip_ws s3) else Inl SyntaxError)))"

fun parse_value :: "nat \<Rightarrow> string \<Rightarrow> (jsval \<times> string) result"
  and parse_elements :: "nat \<Rightarrow> jsval list \<Rightarrow> string \<Rightarrow> (jsval \<times> string) result"
  and parse_members :: "nat \<Rightarrow> (string \<times> jsval) list \<Rightarrow> string \<Rightarrow> (jsval \<times> string) result" where
  "parse_value 0 s = Inl (Failure ''fuel'')"
| "parse_value (Suc n) [] = Inl SyntaxError"
| "parse_value (Suc n) (c # r) =
     (if c = CHR ''{'' then
        (case skip_ws r of
           [] \<Rightarrow> Inl SyntaxError
         | d # r' \<Rightarrow> if d = CHR ''}'' then Inr (Obj [], r') else parse_members n [] (d # r'))
      else if c = CHR ''['' then
        (case skip_ws r of
           [] \<Rightarrow> Inl SyntaxError
         | d # r' \<Rightarrow> if d = CHR '']'' then Inr (Arr [], r') else parse_elements n [] (d # r'))
      else if c = CHR 0x22 then
        (case parse_chars [] r of Inl e \<Rightarrow> Inl e | Inr (str, r') \<Rightarrow> Inr (Str str, r'))
      else if c = CHR ''-'' \<or> is_digit c then parse_number (c # r)
      else parse_literal (c # r))"
| "parse_elements 0 acc s = Inl (Failure ''fuel'')"
| "parse_elements (Suc n) acc s =
     (case parse_value n s of
        Inl e \<Rightarrow> Inl e
      | Inr (v, r) \<Rightarrow>
          (case parse_separator (CHR '']'') r of
             Inl e \<Rightarrow> Inl e
           | Inr (More r') \<Rightarrow> parse_elements n (acc @ [v]) r'
           | Inr (Closed r') \<Rightarrow> Inr (Arr (acc @ [v]), r')))"
| "parse_members 0 acc s = Inl (Failure ''fuel'')"
| "parse_members (Suc n) acc s =
     (case parse_key s of
        Inl e \<Rightarrow> Inl e
      | Inr (k, s1) \<Rightarrow>
          (case parse_value n s1 of
             Inl e \<Rightarrow> Inl e
           | Inr (v, r) \<Rightarrow>
               (case parse_separator (CHR ''}'') r of
                  Inl e \<Rightarrow> Inl e
                | Inr (More r') \<Rightarrow> parse_members n (Map_set k v acc) r'
                | Inr (Closed r') \<Rightarrow> Inr (Obj (Map_set k v acc), r'))))"

definition parse_JSON_text :: "string \<Rightarrow> jsval result" where
  "parse_JSON_text s =
     (case parse_value (2 * length s + 2) (skip_ws s) of
        Inl e \<Rightarrow> Inl e
      | Inr (v, r) \<Rightarrow> if skip_ws r = [] then Inr v else Inl SyntaxError)"

definition JSON_parse :: "(real \<Rightarrow> string) \<Rightarrow> jsval \<Rightarrow> jsval result" where
  "JSON_parse nt v = and_then (ToString nt v) parse_JSON_text"

text \<open>
  The property read \<^verbatim>\<open>x.value\<close>: a TypeError on \<^verbatim>\<open>undefined\<close> and \<^verbatim>\<open>null\<close>, the
  property of an object, and \<^verbatim>\<open>undefined\<close> on a primitive or an array, none of which
  has or inherits a property of that name.
\<close>

definition get_value :: "jsval \<Rightarrow> jsval result" where
  "get_value x =
     (case x of
        Undefined \<Rightarrow> Inl TypeError
      | Null \<Rightarrow> Inl TypeError
      | Obj ps \<Rightarrow> Inr (Map_get ''value'' ps)
      | _ \<Rightarrow> Inr Undefined)"

section \<open>The facade: all, find, math\<close>

definition element :: "string \<Rightarrow> jsval \<Rightarrow> jsval" where
  "element k v = Obj [(''key'', Str k), (''value'', v)]"

text \<open>
  \<^verbatim>\<open>all\<close> on a Map walks the entries in order and pushes, for each, the key without the
  prefix and the \<^verbatim>\<open>value\<close> property of what the deserialize hook returns for the stored
  value; an exception of the hook or of the property read rejects the promise.
\<close>

fun all_loop :: "options \<Rightarrow> jsmap \<Rightarrow> jsval list result" where
  "all_loop opts [] = Inr []"
| "all_loop opts ((key, v) # m) =
     and_then (deserialize opts v) (\<lambda>d.
     and_then (get_value d) (\<lambda>x.
     and_then (all_loop opts m) (\<lambda>arr.
     Inr (element (removeKeyPrefix opts key) x # arr))))"

definition Endb_all :: "'a adapters \<Rightarrow> options \<Rightarrow> 'a store \<Rightarrow> jsval result" where
  "Endb_all A opts st =
     and_then
       (case st of
          MapStore ns m \<Rightarrow> and_then (all_loop opts m) (\<lambda>arr. Inr (Arr arr))
        | AdapterStore a \<Rightarrow> a_all A a)
       (\<lambda>data. if data = Undefined then Inr Undefined else Inr data)"

text \<open>
  \<^verbatim>\<open>find\<close> awaits \<^verbatim>\<open>all\<close> and iterates over what it resolved to: the elements of an
  array, the characters of a string, and a TypeError for a value that is not iterable. The
  callback is a predicate on values; binding \<^verbatim>\<open>thisArg\<close> to it (which the method always
  does, since \<^verbatim>\<open>typeof\<close> never yields \<^verbatim>\<open>undefined\<close> itself) does not change what it returns.
  The loop returns the element at which the predicate holds.
\<close>

definition iterate :: "jsval \<Rightarrow> jsval list result" where
  "iterate x =
     (case x of
        Arr xs \<Rightarrow> Inr xs
      | Str s \<Rightarrow> Inr (map (\<lambda>c. Str [c]) s)
      | _ \<Rightarrow> Inl TypeError)"

fun find_loop :: "(jsval \<Rightarrow> bool) \<Rightarrow> jsval list \<Rightarrow> jsval result" where
  "find_loop fn [] = Inr Undefined"
| "find_loop fn (e # es) =
     and_then (get_value e) (\<lambda>x. if fn x then Inr e else find_loop fn es)"

definition Endb_find :: "'a adapters \<Rightarrow> options \<Rightarrow> (jsval \<Rightarrow> bool) \<Rightarrow> 'a store \<Rightarrow> jsval result" where
  "Endb_find A opts fn st =
     and_then (Endb_all A opts st) (\<lambda>elements.
     and_then (iterate elements) (\<lambda>es. find_loop fn es))"

text \<open>
  \<^verbatim>\<open>math\<close>: \<^verbatim>\<open>Math.random\<close> draws a double \<open>r\<close> with \<open>0 \<le> r < 1\<close>; the draw is an
  argument of the model. The product with the operand is the product of two numbers. The
  module \<^verbatim>\<open>./util\<close> lies outside \<^verbatim>\<open>src/index.js\<close>, so \<^verbatim>\<open>util.math\<close> is the parameter
  \<open>U\<close>.
\<close>

definition Endb_math ::
  "'a adapters \<Rightarrow> (jsval \<Rightarrow> string \<Rightarrow> number \<Rightarrow> jsval result) \<Rightarrow> options \<Rightarrow> real \<Rightarrow>
   string \<Rightarrow> string \<Rightarrow> number \<Rightarrow> 'a store \<Rightarrow> (jsval \<times> 'a store) result" where
  "Endb_math A U opts r key operation operand st =
     (if operation = ''random'' \<or> operation = ''rand''
      then Endb_set A opts key (Num (Math_round (Number_times (Finite r) operand))) st
      else and_then (Endb_get A opts key st) (\<lambda>old.
           and_then (U old operation operand) (\<lambda>new.
           Endb_set A opts key new st)))"

section \<open>Construction\<close>

text \<open>
  \<^verbatim>\<open>load\<close> looks the adapter name up in an object literal. A property read on an object
  literal finds the literal's own properties and, failing that, the properties every
  object inherits from \<^verbatim>\<open>Object.prototype\<close>; only a name that is neither yields
  \<^verbatim>\<open>undefined\<close>.
\<close>

definition adapters_table :: "(string \<times> string) list" where
  "adapters_table =
     [(''level'', ''./adapters/leveldb''),
      (''leveldb'', ''./adapters/leveldb''),
      (''mongo'', ''./adapters/mongodb''),
      (''mongodb'', ''./adapters/mongodb''),
      (''mysql'', ''./adapters/mysql''),
      (''mysql2'', ''./adapters/mysql''),
      (''postgres'', ''./adapters/postgres''),
      (''postgresql'', ''./adapters/postgres''),
      (''redis'', ''./adapters/redis''),
      (''sqlite'', ''./adapters/sqlite''),
      (''sqlite3'', ''./adapters/sqlite'')]"

definition Object_prototype_names :: "string list" where
  "Object_prototype_names =
     [''constructor'', ''__defineGetter__'', ''__defineSetter__'', ''hasOwnProperty'',
      ''__lookupGetter__'', ''__lookupSetter__'', ''isPrototypeOf'', ''propertyIsEnumerable'',
      ''toString'', ''valueOf'', ''__proto__'', ''toLocaleString'']"

datatype property = NoProperty | ModulePath string | Inherited

definition adapters_get :: "string \<Rightarrow> property" where
  "adapters_get name =
     (case map_of adapters_table name of
        Some path \<Rightarrow> ModulePath path
      | None \<Rightarrow> if name \<in> set Object_prototype_names then Inherited else NoProperty)"

text \<open>A string option is truthy when it is given and not empty.\<close>

definition truthy :: "string option \<Rightarrow> bool" where
  "truthy x = (case x of None \<Rightarrow> False | Some s \<Rightarrow> s \<noteq> [])"

definition string_of :: "string option \<Rightarrow> string" where
  "string_of x = (case x of None \<Rightarrow> [] | Some s \<Rightarrow> s)"

text \<open>The match of \<^verbatim>\<open>/^[^:]*/\<close>: the longest prefix without a colon.\<close>

definition scheme :: "string \<Rightarrow> string" where
  "scheme u = takeWhile (\<lambda>c. c \<noteq> CHR '':'') u"

text \<open>
  \<^verbatim>\<open>require\<close> of a module path constructs the adapter; \<^verbatim>\<open>require\<close> of an inherited
  property, which is not a string, throws a TypeError.
\<close>

definition load :: "'a adapters \<Rightarrow> options \<Rightarrow> 'a store result" where
  "load A opts =
     (if truthy (adapter opts) \<or> truthy (uri opts) then
        (let name = (if truthy (adapter opts) then string_of (adapter opts)
                     else scheme (string_of (uri opts)))
         in case adapters_get name of
              ModulePath path \<Rightarrow> and_then (a_new A path opts) (\<lambda>a. Inr (AdapterStore a))
            | Inherited \<Rightarrow> Inl TypeError
            | NoProperty \<Rightarrow> Inr (MapStore None []))
      else Inr (MapStore None []))"

text \<open>
  The arguments of the constructor: the first is absent, a URI string or an options
  object; the second is an options object. An options object gives any of the options.
  The constructor merges them over the defaults, loads a store unless one is given, and
  assigns the namespace to the store. It also subscribes to the error events of a store
  that has any; events are not modelled.
\<close>

record 'a ctor_options =
  o_namespace :: "string option"
  o_serialize :: "(jsval \<Rightarrow> jsval result) option"
  o_deserialize :: "(jsval \<Rightarrow> jsval result) option"
  o_adapter :: "string option"
  o_uri :: "string option"
  o_store :: "'a store option"

datatype 'a ctor_arg = NoArg | UriString string | OptionsObject "'a ctor_options"

definition no_options :: "'a ctor_options" where
  "no_options = \<lparr>o_namespace = None, o_serialize = None, o_deserialize = None,
                 o_adapter = None, o_uri = None, o_store = None\<rparr>"

definition first_source :: "'a ctor_arg \<Rightarrow> 'a ctor_options" where
  "first_source arg =
     (case arg of
        NoArg \<Rightarrow> no_options
      | UriString u \<Rightarrow> no_options\<lparr>o_uri := Some u\<rparr>
      | OptionsObject o1 \<Rightarrow> o1)"

text \<open>\<^verbatim>\<open>Object.assign\<close>: a later source overrides an earlier one.\<close>

definition assign :: "'b option \<Rightarrow> 'b option \<Rightarrow> 'b option" where
  "assign x y = (case y of Some b \<Rightarrow> Some b | None \<Rightarrow> x)"

definition assign_default :: "'b \<Rightarrow> 'b option \<Rightarrow> 'b option \<Rightarrow> 'b" where
  "assign_default d x y = (case assign x y of Some b \<Rightarrow> b | None \<Rightarrow> d)"

definition merged_options :: "(real \<Rightarrow> string) \<Rightarrow> 'a ctor_options \<Rightarrow> 'a ctor_options \<Rightarrow> options" where
  "merged_options nt o1 o2 =
     \<lparr>namespace = assign_default ''endb'' (o_namespace o1) (o_namespace o2),
      serialize = assign_default (JSON_stringify nt) (o_serialize o1) (o_serialize o2),
      deserialize = assign_default (JSON_parse nt) (o_deserialize o1) (o_deserialize o2),
      adapter = assign (o_adapter o1) (o_adapter o2),
      uri = assign (o_uri o1) (o_uri o2)\<rparr>"

definition set_namespace :: "'a adapters \<Rightarrow> string \<Rightarrow> 'a store \<Rightarrow> 'a store" where
  "set_namespace A n st =
     (case st of
        MapStore ns m \<Rightarrow> MapStore (Some n) m
      | AdapterStore a \<Rightarrow> AdapterStore (a_set_namespace A n a))"

definition Endb_new ::
  "'a adapters \<Rightarrow> (real \<Rightarrow> string) \<Rightarrow> 'a ctor_arg \<Rightarrow> 'a ctor_options \<Rightarrow> (options \<times> 'a store) result" where
  "Endb_new A nt arg o2 =
     (let o1 = first_source arg;
          opts = merged_options nt o1 o2
      in and_then
           (case assign (o_store o1) (o_store o2) of
              Some st \<Rightarrow> Inr st
            | None \<Rightarrow> load A opts)
           (\<lambda>st. Inr (opts, set_namespace A (namespace opts) st)))"

definition default_options :: "(real \<Rightarrow> string) \<Rightarrow> options" where
  "default_options nt =
     \<lparr>namespace = ''endb'', serialize = JSON_stringify nt, deserialize = JSON_parse nt,
      adapter = None, uri = None\<rparr>"

section \<open>Sequences of calls and closed examples\<close>

text \<open>
  A caller issues modifying calls one after another. A call whose promise is rejected
  has not touched a Map (only the serialize hook can reject \<^verbatim>\<open>set\<close> there, and it runs
  before the store is reached), so the sequence goes on from the store as it was.
\<close>

datatype command = Set string jsval | Delete string | Clear

definition sets_key :: "string \<Rightarrow> command \<Rightarrow> bool" where
  "sets_key k c = (case c of Set k' v \<Rightarrow> k' = k | _ \<Rightarrow> False)"

definition step :: "'a adapters \<Rightarrow> options \<Rightarrow> 'a store \<Rightarrow> command \<Rightarrow> 'a store" where
  "step A opts st c =
     (case (case c of
              Set k v \<Rightarrow> Endb_set A opts k v st
            | Delete k \<Rightarrow> Endb_delete A opts k st
            | Clear \<Rightarrow> Endb_clear A opts st) of
        Inl e \<Rightarrow> st
      | Inr (r, st') \<Rightarrow> st')"

definition run :: "'a adapters \<Rightarrow> options \<Rightarrow> command list \<Rightarrow> 'a store \<Rightarrow> 'a store" where
  "run A opts cs st = foldl (step A opts) st cs"

text \<open>
  The closed examples run on an installation without adapter modules, where every call
  on an adapter fails, and print no number other than an integer.
\<close>

definition no_adapter :: "unit adapters" where
  "no_adapter =
     \<lparr>a_new = (\<lambda>path opts. Inl (Failure ''no module'')),
      a_set_namespace = (\<lambda>n a. a),
      a_set = (\<lambda>k v a. Inl (Failure ''no module'')),
      a_get = (\<lambda>k a. Inl (Failure ''no module'')),
      a_delete = (\<lambda>k a. Inl (Failure ''no module'')),
      a_clear = (\<lambda>a. Inl (Failure ''no module'')),
      a_all = (\<lambda>a. Inl (Failure ''no module''))\<rparr>"

definition integer_text :: "real \<Rightarrow> string" where
  "integer_text x = []"

definition no_util :: "jsval \<Rightarrow> string \<Rightarrow> number \<Rightarrow> jsval result" where
  "no_util old operation operand = Inl (Failure ''no module'')"

text \<open>The callback \<^verbatim>\<open>v => v === 'bar'\<close> of the examples in the sources.\<close>

definition is_bar :: "jsval \<Rightarrow> bool" where
  "is_bar v = (v = Str ''bar'')"

text \<open>
  A store object of the caller's own, given as the \<^verbatim>\<open>store\<close> option. It is no Map; it
  keeps its entries in a list and answers every call for exactly the key it is given.
\<close>

definition list_store :: "jsmap adapters" where
  "list_store =
     \<lparr>a_new = (\<lambda>path opts. Inr []),
      a_set_namespace = (\<lambda>n m. m),
      a_set = (\<lambda>k v m. Inr (Map_set k v m)),
      a_get = (\<lambda>k m. Inr (Map_get k m)),
      a_delete = (\<lambda>k m. Inr (Bool (Map_has k m), Map_remove k m)),
      a_clear = (\<lambda>m. Inr (Undefined, [])),
      a_all = (\<lambda>m. Inr (Arr (map (\<lambda>(k, v). element k v) m)))\<rparr>"

section \<open>Properties of the Map and of the key prefix\<close>

lemma Map_get_set: "Map_get k (Map_set k v m) = v"
  by (induction m) auto

lemma Map_has_set: "Map_has k (Map_set k v m)"
  by (induction m) auto

lemma Map_has_set_other: "k' \<noteq> k \<Longrightarrow> Map_has k' (Map_set k v m) = Map_has k' m"
  by (induction m) (auto split: if_splits)

lemma Map_has_iff: "Map_has k m \<longleftrightarrow> k \<in> fst ` set m"
  by (induction m) auto

lemma Map_set_keys: "fst ` set (Map_set k v m) = insert k (fst ` set m)"
  by (induction m) (force split: if_splits)+

lemma Map_wf_set: "Map_wf m \<Longrightarrow> Map_wf (Map_set k v m)"
proof (induction m)
  case Nil
  then show ?case by (simp add: Map_wf_def)
next
  case (Cons p m)
  then show ?case
    by (cases p) (auto simp: Map_wf_def Map_set_keys)
qed

lemma Map_remove_filter: "Map_remove k m = filter (\<lambda>p. fst p \<noteq> k) m"
  by (induction m) auto

lemma Map_wf_remove: "Map_wf m \<Longrightarrow> Map_wf (Map_remove k m)"
  by (simp add: Map_wf_def Map_remove_filter distinct_map_filter)

lemma Map_has_remove: "\<not> Map_has k (Map_remove k m)"
  by (induction m) (auto split: if_splits)

lemma Map_has_remove_other: "k' \<noteq> k \<Longrightarrow> Map_has k' (Map_remove k m) = Map_has k' m"
  by (induction m) (auto split: if_splits)

lemma Map_get_absent: "\<not> Map_has k m \<Longrightarrow> Map_get k m = Undefined"
  by (induction m) auto

lemma String_replace_prefix: "String_replace pat [] (pat @ s) = s"
proof (cases "pat @ s")
  case Nil
  then show ?thesis by simp
next
  case (Cons c cs)
  have "String_replace pat [] (c # cs) = drop (length pat) (c # cs)"
    using Cons by simp (metis append_eq_conv_conj)
  then show ?thesis
    using Cons by (metis append_eq_conv_conj)
qed

section \<open>Rounding to a double\<close>

lemma exponent_bounds_ge1:
  fixes y :: real
  assumes "1 \<le> y"
  shows "2 powi (bitlen \<lfloor>y\<rfloor> - 1) \<le> y \<and> y < 2 powi (bitlen \<lfloor>y\<rfloor> - 1 + 1)"
proof -
  let ?n = "\<lfloor>y\<rfloor>"
  have "1 \<le> ?n" using assms by (simp add: le_floor_iff)
  then have n: "0 < ?n" by simp
  have b: "2 ^ nat (bitlen ?n - 1) \<le> ?n" "?n < 2 ^ nat (bitlen ?n)"
    using bitlen_bounds [OF n] by simp_all
  have b1: "1 \<le> bitlen ?n"
    using n by (simp add: bitlen_alt_def)
  have "(2::real) ^ nat (bitlen ?n - 1) = real_of_int (2 ^ nat (bitlen ?n - 1))"
    by simp
  also have "\<dots> \<le> real_of_int ?n"
    using b(1) by (rule of_int_le_iff [THEN iffD2])
  also have "\<dots> \<le> y"
    by (rule of_int_floor_le)
  finally have lo: "(2::real) ^ nat (bitlen ?n - 1) \<le> y" .
  have s: "?n + 1 \<le> 2 ^ nat (bitlen ?n)"
    using b(2) by simp
  have "y < real_of_int (?n + 1)"
    by simp
  also have "\<dots> \<le> real_of_int (2 ^ nat (bitlen ?n))"
    using s by (rule of_int_le_iff [THEN iffD2])
  also have "\<dots> = 2 ^ nat (bitlen ?n)"
    by simp
  finally have hi: "y < (2::real) ^ nat (bitlen ?n)" .
  show ?thesis
    using lo hi b1 by (simp add: power_int_def)
qed

lemma exponent_bounds_lt1:
  fixes x :: real
  assumes "0 < x" and "x < 1"
  shows "2 powi (- bitlen (\<lceil>1 / x\<rceil> - 1)) \<le> x
       \<and> x < 2 powi (- bitlen (\<lceil>1 / x\<rceil> - 1) + 1)"
proof -
  define N where "N = \<lceil>1 / x\<rceil> - 1"
  define c where "c = nat (bitlen N)"
  have y: "1 < 1 / x" using assms by simp
  then have "1 < \<lceil>1 / x\<rceil>" by (simp add: less_ceiling_iff)
  then have N0: "0 < N" by (simp add: N_def)
  have b: "2 ^ nat (bitlen N - 1) \<le> N" "N < 2 ^ nat (bitlen N)"
    using bitlen_bounds [OF N0] by simp_all
  have b1: "1 \<le> bitlen N"
    using N0 by (simp add: bitlen_alt_def)
  then have c1: "1 \<le> c" and cb: "bitlen N = int c"
    by (simp_all add: c_def)
  have c': "nat (bitlen N - 1) = c - 1"
    using b1 by (simp add: c_def)
  have N_lt: "real_of_int N < 1 / x"
    unfolding N_def by simp linarith
  have N_ge: "1 / x \<le> real_of_int N + 1"
    unfolding N_def by simp
  have "N + 1 \<le> 2 ^ c"
    using b(2) by (simp add: c_def)
  then have "real_of_int (N + 1) \<le> real_of_int (2 ^ c)"
    by (rule of_int_le_iff [THEN iffD2])
  moreover have "real_of_int (N + 1) = real_of_int N + 1" "real_of_int (2 ^ c) = 2 ^ c"
    by simp_all
  ultimately have "1 / x \<le> 2 ^ c"
    using N_ge by linarith
  then have lo: "1 / 2 ^ c \<le> x"
    using assms(1) by (simp add: field_simps)
  have "real_of_int (2 ^ (c - 1)) \<le> real_of_int N"
    using b(1) unfolding c' by (rule of_int_le_iff [THEN iffD2])
  moreover have "real_of_int (2 ^ (c - 1)) = 2 ^ (c - 1)"
    by simp
  ultimately have "2 ^ (c - 1) < 1 / x"
    using N_lt by linarith
  then have hi: "x < 1 / 2 ^ (c - 1)"
    using assms(1) by (simp add: field_simps)
  have e1: "(2::real) powi (- int c) = 1 / 2 ^ c"
    by (simp add: power_int_minus field_simps)
  have "- int c + 1 = - int (c - 1)" using c1 by simp
  then have e2: "(2::real) powi (- int c + 1) = 1 / 2 ^ (c - 1)"
    by (simp only: power_int_minus power_int_of_nat) (simp add: field_simps)
  show ?thesis
    using lo hi unfolding N_def [symmetric] cb by (simp only: e1 e2)
qed

lemma two_powi_less_imp:
  assumes "(2::real) powi a < 2 powi b"
  shows "a < b"
proof (rule ccontr)
  assume "\<not> a < b"
  then have "(2::real) powi b \<le> 2 powi a"
    by (intro power_int_increasing) simp_all
  then show False using assms by simp
qed

lemma exponent_bounds:
  assumes "x \<noteq> 0"
  shows "2 powi (exponent x) \<le> \<bar>x\<bar>" and "\<bar>x\<bar> < 2 powi (exponent x + 1)"
proof -
  have "2 powi (exponent x) \<le> \<bar>x\<bar> \<and> \<bar>x\<bar> < 2 powi (exponent x + 1)"
  proof (cases "1 \<le> \<bar>x\<bar>")
    case True
    then show ?thesis
      using exponent_bounds_ge1 [of "\<bar>x\<bar>"] by (simp add: exponent_def)
  next
    case False
    then have "0 < \<bar>x\<bar>" "\<bar>x\<bar> < 1" using assms by simp_all
    then show ?thesis
      using exponent_bounds_lt1 [of "\<bar>x\<bar>"] False by (simp add: exponent_def)
  qed
  then show "2 powi (exponent x) \<le> \<bar>x\<bar>" and "\<bar>x\<bar> < 2 powi (exponent x + 1)"
    by simp_all
qed

lemma exponent_log:
  assumes "x \<noteq> 0"
  shows "exponent x = \<lfloor>log 2 \<bar>x\<bar>\<rfloor>"
proof -
  have x: "0 < \<bar>x\<bar>" using assms by simp
  have 1: "(2::real) powr (of_int (exponent x)) = 2 powi (exponent x)"
    by (subst powr_real_of_int') simp_all
  have "(2::real) powr (of_int (exponent x + 1)) = 2 powi (exponent x + 1)"
    by (subst powr_real_of_int') simp_all
  then have 2: "(2::real) powr (of_int (exponent x) + 1) = 2 powi (exponent x + 1)"
    by simp
  have "\<lfloor>log 2 \<bar>x\<bar>\<rfloor> = exponent x"
    using x exponent_bounds [OF assms] by (simp add: floor_log_eq_powr_iff 1 2)
  then show ?thesis by simp
qed

lemma exponent_eq:
  assumes "2 powi b \<le> \<bar>x\<bar>" and "\<bar>x\<bar> < 2 powi (b + 1)"
  shows "exponent x = b"
proof -
  have p: "(0::real) < 2 powi b" by simp
  have "0 < \<bar>x\<bar>" using assms(1) p by linarith
  then have x: "x \<noteq> 0" by simp
  note e = exponent_bounds [OF x]
  have "(2::real) powi b < 2 powi (exponent x + 1)"
    using assms(1) e(2) by linarith
  then have 1: "b < exponent x + 1"
    by (rule two_powi_less_imp)
  have "(2::real) powi (exponent x) < 2 powi (b + 1)"
    using assms(2) e(1) by linarith
  then have 2: "exponent x < b + 1"
    by (rule two_powi_less_imp)
  show ?thesis using 1 2 by simp
qed

lemma exponent_less:
  assumes "x \<noteq> 0" and "\<bar>x\<bar> < 2 powi K"
  shows "exponent x < K"
proof -
  have "(2::real) powi (exponent x) < 2 powi K"
    using exponent_bounds(1) [OF assms(1)] assms(2) by linarith
  then show ?thesis
    by (rule two_powi_less_imp)
qed

lemma ulp_pos: "0 < ulp x"
  by (simp add: ulp_def)

lemma round_even_of_int: "round_even (of_int N) = N"
  by (simp add: round_even_def)

lemma round_even_nonneg: "0 \<le> q \<Longrightarrow> 0 \<le> round_even q"
  by (auto simp: round_even_def Let_def)

lemma round_even_le_int:
  assumes "q \<le> of_int N"
  shows "round_even q \<le> N"
proof -
  have k: "\<lfloor>q\<rfloor> \<le> N" using assms by (simp add: floor_le_iff)
  show ?thesis
  proof (cases "\<lfloor>q\<rfloor> = N")
    case True
    then have "q = of_int N" using assms by linarith
    then show ?thesis by (simp add: round_even_of_int)
  next
    case False
    then have "\<lfloor>q\<rfloor> + 1 \<le> N" using k by simp
    then show ?thesis by (auto simp: round_even_def Let_def)
  qed
qed

lemma binade_le:
  assumes "x \<noteq> 0" and "\<bar>x\<bar> \<le> of_int m * 2 powi e" and "0 < m" and "m < 2 ^ 53" and "- 1074 \<le> e"
  shows "binade x - 52 \<le> e"
proof -
  have "\<bar>x\<bar> < 2 ^ 53 * 2 powi e"
  proof -
    have "of_int m * 2 powi e < (2 ^ 53 :: real) * 2 powi e"
      using assms(4) by (simp add: of_int_less_numeral_power_cancel_iff)
    then show ?thesis using assms(2) by linarith
  qed
  also have "\<dots> = 2 powi (53 + e)"
    by (simp add: power_int_add)
  finally have "exponent x < 53 + e"
    using assms(1) by (intro exponent_less)
  then show ?thesis
    using assms(5) by (simp add: binade_def)
qed

lemma ratio_int:
  assumes "k \<le> e"
  shows "\<exists>N. of_int m * 2 powi e / 2 powi k = real_of_int N"
proof -
  have "(2::real) powi e / 2 powi k = 2 powi (e - k)"
    by (simp add: power_int_diff)
  also have "\<dots> = 2 ^ nat (e - k)"
    using assms by (simp add: power_int_def)
  finally have h: "(2::real) powi e / 2 powi k = 2 ^ nat (e - k)" .
  have "of_int m * 2 powi e / 2 powi k = of_int m * ((2::real) powi e / 2 powi k)"
    by simp
  also have "\<dots> = real_of_int (m * 2 ^ nat (e - k))"
    by (simp only: h) simp
  finally show ?thesis by blast
qed

lemma fl_nonneg: "0 \<le> x \<Longrightarrow> 0 \<le> fl x"
  using ulp_pos [of x] by (simp add: fl_def round_even_nonneg)

lemma fl_le_double:
  assumes "0 \<le> x" and "x \<le> n" and "is_double n"
  shows "fl x \<le> n"
proof (cases "x = 0")
  case True
  then show ?thesis using assms by (simp add: fl_def)
next
  case False
  obtain m e where n: "n = of_int m * 2 powi e" and m: "\<bar>m\<bar> < 2 ^ 53" and e: "- 1074 \<le> e"
    using assms(3) by (auto simp: is_double_def)
  have "0 < n" using assms False by linarith
  moreover have "(0::real) < 2 powi e"
    by simp
  ultimately have mp: "0 < m"
    using n by (simp add: zero_less_mult_iff)
  have "binade x - 52 \<le> e"
    using binade_le [of x m e] False assms n mp m e by simp
  then obtain N where N: "n / ulp x = real_of_int N"
    using ratio_int [of "binade x - 52" e m] n by (auto simp: ulp_def)
  have "x / ulp x \<le> real_of_int N"
    using assms(2) ulp_pos [of x] N by (metis divide_right_mono less_imp_le)
  then have "round_even (x / ulp x) \<le> N"
    by (rule round_even_le_int)
  then have "real_of_int (round_even (x / ulp x)) * ulp x \<le> real_of_int N * ulp x"
    using ulp_pos [of x] by (simp add: mult_right_mono)
  also have "\<dots> = n"
    using N ulp_pos [of x] by (simp add: field_simps)
  finally show ?thesis
    using False by (simp add: fl_def)
qed

lemma fl_exact:
  assumes "is_double x"
  shows "fl x = x"
proof (cases "x = 0")
  case True
  then show ?thesis by (simp add: fl_def)
next
  case False
  obtain m e where x: "x = of_int m * 2 powi e" and m: "\<bar>m\<bar> < 2 ^ 53" and e: "- 1074 \<le> e"
    using assms by (auto simp: is_double_def)
  have m0: "m \<noteq> 0" using False x by auto
  have "\<bar>x\<bar> = of_int \<bar>m\<bar> * 2 powi e"
    by (simp add: x abs_mult)
  then have "binade x - 52 \<le> e"
    using binade_le [of x "\<bar>m\<bar>" e] False m0 m e by simp
  then obtain N where N: "x / ulp x = real_of_int N"
    using ratio_int [of "binade x - 52" e m] x by (auto simp: ulp_def)
  then have "real_of_int (round_even (x / ulp x)) * ulp x = real_of_int N * ulp x"
    by (simp add: round_even_of_int)
  also have "\<dots> = x"
    using N ulp_pos [of x] by (simp add: field_simps)
  finally show ?thesis
    using False by (simp add: fl_def)
qed

lemma double_less_max:
  assumes "is_double x"
  shows "\<bar>x\<bar> < 2 ^ 1024"
proof -
  obtain m e where x: "x = of_int m * 2 powi e" and m: "\<bar>m\<bar> < 2 ^ 53" and e: "e \<le> 971"
    using assms by (auto simp: is_double_def)
  have "\<bar>x\<bar> = of_int \<bar>m\<bar> * 2 powi e"
    by (simp add: x abs_mult)
  also have "\<dots> < 2 ^ 53 * 2 powi e"
    using m by (simp add: of_int_less_numeral_power_cancel_iff)
  also have "\<dots> \<le> 2 ^ 53 * 2 powi 971"
    using e by (intro mult_left_mono power_int_increasing) simp_all
  also have "\<dots> = 2 ^ 53 * (2::real) ^ 971"
    by (simp only: power_int_def) simp
  also have "\<dots> = 2 ^ 1024"
    by (simp only: power_add [symmetric]) simp
  finally show ?thesis .
qed

lemma is_double_examples:
  "is_double 3" "is_double (3 / 4)" "is_double (9 / 16)" "is_double (5 / 2)" "is_double 5"
  "is_double (9 / 4)"
proof -
  have a: "\<exists>m e. (3::real) = of_int m * 2 powi e \<and> \<bar>m\<bar> < 2 ^ 53 \<and> - 1074 \<le> e \<and> e \<le> 971"
    by (rule exI [of _ 3], rule exI [of _ 0]) simp
  show "is_double 3" using a by (simp add: is_double_def)
  have "(3 / 4 :: real) = of_int 3 * 2 powi (- 2)" by (simp add: power_int_minus)
  then show "is_double (3 / 4)" unfolding is_double_def by (intro exI [of _ 3] exI [of _ "- 2"]) simp
  have "(9 / 16 :: real) = of_int 9 * 2 powi (- 4)" by (simp add: power_int_minus)
  then show "is_double (9 / 16)" unfolding is_double_def by (intro exI [of _ 9] exI [of _ "- 4"]) simp
  have "(5 / 2 :: real) = of_int 5 * 2 powi (- 1)" by (simp add: power_int_minus)
  then show "is_double (5 / 2)" unfolding is_double_def by (intro exI [of _ 5] exI [of _ "- 1"]) simp
  have "(5 :: real) = of_int 5 * 2 powi 0" by simp
  then show "is_double 5" unfolding is_double_def by (intro exI [of _ 5] exI [of _ 0]) simp
  have "(9 / 4 :: real) = of_int 9 * 2 powi (- 2)" by (simp add: power_int_minus)
  then show "is_double (9 / 4)" unfolding is_double_def by (intro exI [of _ 9] exI [of _ "- 2"]) simp
qed

lemma binade_eq:
  assumes "2 powi b \<le> \<bar>x\<bar>" and "\<bar>x\<bar> < 2 powi (b + 1)" and "- 1022 \<le> b"
  shows "binade x = b"
  using exponent_eq [OF assms(1,2)] assms(3) by (simp add: binade_def)

lemma fl_eval:
  assumes "2 powi b \<le> \<bar>x\<bar>" and "\<bar>x\<bar> < 2 powi (b + 1)" and "- 1022 \<le> b"
    and "round_even (x / 2 powi (b - 52)) = N"
  shows "fl x = of_int N * 2 powi (b - 52)"
proof -
  have p: "(0::real) < 2 powi b" by simp
  have "0 < \<bar>x\<bar>"
    using assms(1) p by linarith
  then have "x \<noteq> 0"
    by simp
  then show ?thesis
    using binade_eq [OF assms(1-3)] assms(4) by (simp add: fl_def ulp_def)
qed

lemma fl_tie:
  "fl (6305039478318694 / 2 ^ 53 * 5) = 7 / 2"
proof -
  have f: "\<lfloor>15762598695796735 / 2 :: real\<rfloor> = 7881299347898367"
    by linarith
  have r: "round_even (15762598695796735 / 2) = 7881299347898368"
    by (simp add: round_even_def f)
  have "fl (15762598695796735 / 4503599627370496) = of_int 7881299347898368 * 2 powi (1 - 52)"
    by (rule fl_eval) (simp_all add: power_int_minus r)
  then show ?thesis
    by (simp add: power_int_minus)
qed

section \<open>The fuel of the JSON parser\<close>

text \<open>
  No part of the parser lengthens the text that remains, and every step between two
  recursive calls takes a character; so the fuel of \<open>parse_JSON_text\<close> is never used up.
\<close>

lemma skip_ws_length: "length (skip_ws s) \<le> length s"
  by (simp add: skip_ws_def length_dropWhile_le)

lemma parse_escape_taken: "parse_escape s = Inr (ch, k) \<Longrightarrow> 0 < k"
  by (auto simp: parse_escape_def split: list.splits if_splits option.splits)

lemma parse_escape_no_fuel: "parse_escape s \<noteq> Inl (Failure f)"
  by (auto simp: parse_escape_def split: list.splits if_splits option.splits)

lemma parse_chars_length: "parse_chars acc s = Inr (str, r) \<Longrightarrow> length r < length s"
proof (induction acc s rule: parse_chars.induct)
  case (1 acc)
  then show ?case by simp
next
  case (2 acc c r')
  show ?case
  proof (cases "code_unit c = 0x22")
    case True
    then show ?thesis using "2.prems" by simp
  next
    case q: False
    show ?thesis
    proof (cases "code_unit c < 0x20")
      case True
      then show ?thesis using "2.prems" q by simp
    next
      case ctl: False
      show ?thesis
      proof (cases "code_unit c = 0x5C")
        case False
        then have "parse_chars (c # acc) r' = Inr (str, r)"
          using "2.prems" q ctl by simp
        then have "length r < length r'"
          using "2.IH"(1) q ctl False by simp
        then show ?thesis by simp
      next
        case True
        then obtain ch k where e: "parse_escape r' = Inr (ch, k)"
          and p: "parse_chars (ch # acc) (drop k r') = Inr (str, r)"
          using "2.prems" q ctl by (auto split: sum.splits)
        have "length r < length (drop k r')"
          using "2.IH"(2) [OF q ctl _ e _ p] True by simp
        then show ?thesis by simp
      qed
    qed
  qed
qed

lemma parse_chars_no_fuel: "parse_chars acc s \<noteq> Inl (Failure f)"
proof (induction acc s rule: parse_chars.induct)
  case (1 acc)
  then show ?case by simp
next
  case (2 acc c r')
  show ?case
  proof (cases "parse_escape r'")
    case (Inl e)
    then show ?thesis
      using 2 parse_escape_no_fuel [of r' f] by auto
  next
    case (Inr p)
    then show ?thesis
      using 2 by (cases p) auto
  qed
qed

lemma parse_int_part_length:
  assumes "parse_int_part s = Some (ip, r)"
  shows "length r \<le> length s"
proof (cases s)
  case Nil
  then show ?thesis using assms by (simp add: parse_int_part_def)
next
  case (Cons c t)
  from assms have "r = t \<or> r = dropWhile is_digit s"
    using Cons by (auto simp: parse_int_part_def split: if_splits)
  then show ?thesis
    using Cons length_dropWhile_le [of is_digit s] by auto
qed

lemma parse_frac_part_length:
  assumes "parse_frac_part s = Some (fp, r)"
  shows "length r \<le> length s"
proof (cases s)
  case Nil
  then show ?thesis using assms by (simp add: parse_frac_part_def)
next
  case (Cons c t)
  from assms have "r = s \<or> r = dropWhile is_digit t"
    using Cons by (auto simp: parse_frac_part_def split: if_splits)
  then show ?thesis
    using Cons length_dropWhile_le [of is_digit t] by auto
qed

lemma parse_exp_sign_length: "parse_exp_sign s = (neg, r) \<Longrightarrow> length r \<le> length s"
  by (auto simp: parse_exp_sign_def split: list.splits if_splits)

lemma parse_exp_part_length:
  assumes a: "parse_exp_part s = Some (ex, r)"
  shows "length r \<le> length s"
proof (cases s)
  case Nil
  then show ?thesis using a by (simp add: parse_exp_part_def)
next
  case (Cons c t)
  obtain neg t' where s: "parse_exp_sign t = (neg, t')"
    by (cases "parse_exp_sign t")
  from a have "r = s \<or> r = dropWhile is_digit t'"
    using Cons s by (auto simp: parse_exp_part_def split: if_splits)
  then show ?thesis
    using Cons length_dropWhile_le [of is_digit t'] parse_exp_sign_length [OF s] by auto
qed

lemma parse_number_length:
  assumes a: "parse_number s = Inr (v, r)"
  shows "length r \<le> length s"
proof -
  obtain neg s1 where n: "(case s of [] \<Rightarrow> (False, s) | c # r \<Rightarrow> if c = CHR ''-'' then (True, r) else (False, s)) = (neg, s1)"
    by (cases "(case s of [] \<Rightarrow> (False, s) | c # r \<Rightarrow> if c = CHR ''-'' then (True, r) else (False, s))")
  then have l1: "length s1 \<le> length s"
    by (auto split: list.splits if_splits)
  from a n obtain ip s2 fp s3 ex where "parse_int_part s1 = Some (ip, s2)"
    and "parse_frac_part s2 = Some (fp, s3)" and "parse_exp_part s3 = Some (ex, r)"
    unfolding parse_number_def by (auto split: option.splits)
  then have "length s2 \<le> length s1" "length s3 \<le> length s2" "length r \<le> length s3"
    using parse_int_part_length parse_frac_part_length parse_exp_part_length by blast+
  then show ?thesis using l1 by linarith
qed

lemma parse_number_no_fuel: "parse_number s \<noteq> Inl (Failure f)"
  unfolding parse_number_def by (auto split: option.splits prod.splits)

lemma parse_literal_length: "parse_literal s = Inr (v, r) \<Longrightarrow> length r \<le> length s"
  by (auto simp: parse_literal_def split: if_splits)

lemma parse_literal_no_fuel: "parse_literal s \<noteq> Inl (Failure f)"
  by (auto simp: parse_literal_def)

lemma parse_separator_More:
  assumes "parse_separator close s = Inr (More r)"
  shows "length r < length s"
proof -
  from assms obtain d t where "skip_ws s = d # t" and "r = skip_ws t"
    by (auto simp: parse_separator_def split: list.splits if_splits)
  then show ?thesis
    using skip_ws_length [of s] skip_ws_length [of t] by simp
qed

lemma parse_separator_Closed:
  assumes "parse_separator close s = Inr (Closed r)"
  shows "length r < length s"
proof -
  from assms obtain d where "skip_ws s = d # r"
    by (auto simp: parse_separator_def split: list.splits if_splits)
  then show ?thesis
    using skip_ws_length [of s] by simp
qed

lemma parse_separator_no_fuel: "parse_separator close s \<noteq> Inl (Failure f)"
  by (auto simp: parse_separator_def split: list.splits)

lemma parse_key_length:
  assumes "parse_key s = Inr (k, r)"
  shows "length r < length s"
proof -
  from assms obtain q s1 s2 c s3 where s: "s = q # s1" and "parse_chars [] s1 = Inr (k, s2)"
    and "skip_ws s2 = c # s3" and "r = skip_ws s3"
    by (auto simp: parse_key_def split: list.splits if_splits sum.splits)
  then show ?thesis
    using parse_chars_length [of "[]" s1 k s2] skip_ws_length [of s2] skip_ws_length [of s3]
    by simp
qed

lemma parse_key_no_fuel: "parse_key s \<noteq> Inl (Failure f)"
  using parse_chars_no_fuel [of "[]" _ f]
  by (auto simp: parse_key_def split: list.splits sum.splits)

lemma parse_rest_length:
  "(\<forall>s v r. parse_value n s = Inr (v, r) \<longrightarrow> length r \<le> length s)
   \<and> (\<forall>acc s v r. parse_elements n acc s = Inr (v, r) \<longrightarrow> length r \<le> length s)
   \<and> (\<forall>acc s v r. parse_members n acc s = Inr (v, r) \<longrightarrow> length r \<le> length s)"
proof (induction n)
  case 0
  show ?case by simp
next
  case (Suc n)
  have V: "length r \<le> length s" if "parse_value n s = Inr (v, r)" for s v r
    using Suc that by blast
  have E: "length r \<le> length s" if "parse_elements n acc s = Inr (v, r)" for acc s v r
    using Suc that by blast
  have M: "length r \<le> length s" if "parse_members n acc s = Inr (v, r)" for acc s v r
    using Suc that by blast
  have v: "length r \<le> length s" if a: "parse_value (Suc n) s = Inr (v, r)" for s v r
  proof (cases s)
    case Nil
    then show ?thesis using a by simp
  next
    case (Cons c t)
    consider (obj) "c = CHR ''{''" | (arr) "c \<noteq> CHR ''{''" "c = CHR ''[''"
      | (str) "c \<noteq> CHR ''{''" "c \<noteq> CHR ''[''" "c = CHR 0x22"
      | (num) "c \<noteq> CHR ''{''" "c \<noteq> CHR ''[''" "c \<noteq> CHR 0x22" "c = CHR ''-'' \<or> is_digit c"
      | (lit) "c \<noteq> CHR ''{''" "c \<noteq> CHR ''[''" "c \<noteq> CHR 0x22" "\<not> (c = CHR ''-'' \<or> is_digit c)"
      by blast
    then show ?thesis
    proof cases
      case obj
      then obtain d t' where w: "skip_ws t = d # t'"
        and "r = t' \<or> parse_members n [] (d # t') = Inr (v, r)"
        using a Cons by (auto split: list.splits if_splits)
      then have "length r \<le> length (d # t')"
        using M [of "[]" "d # t'" v r] by auto
      then show ?thesis
        using Cons w skip_ws_length [of t] by simp
    next
      case arr
      then obtain d t' where w: "skip_ws t = d # t'"
        and "r = t' \<or> parse_elements n [] (d # t') = Inr (v, r)"
        using a Cons by (auto split: list.splits if_splits)
      then have "length r \<le> length (d # t')"
        using E [of "[]" "d # t'" v r] by auto
      then show ?thesis
        using Cons w skip_ws_length [of t] by simp
    next
      case str
      then obtain x where "parse_chars [] t = Inr (x, r)"
        using a Cons by (auto split: sum.splits)
      then show ?thesis
        using Cons parse_chars_length [of "[]" t x r] by simp
    next
      case num
      then have "parse_number s = Inr (v, r)"
        using a Cons by auto
      then show ?thesis by (rule parse_number_length)
    next
      case lit
      then have "parse_literal s = Inr (v, r)"
        using a Cons by auto
      then show ?thesis by (rule parse_literal_length)
    qed
  qed
  have e: "length r \<le> length s" if a: "parse_elements (Suc n) acc s = Inr (v, r)" for acc s v r
  proof -
    from a obtain x r1 sep where x: "parse_value n s = Inr (x, r1)"
      and sep: "parse_separator (CHR '']'') r1 = Inr sep"
      by (auto split: sum.splits)
    have l1: "length r1 \<le> length s" using V [OF x] .
    show ?thesis
    proof (cases sep)
      case (More r')
      then have "parse_elements n (acc @ [x]) r' = Inr (v, r)"
        using a x sep by simp
      then have "length r \<le> length r'" by (rule E)
      then show ?thesis
        using parse_separator_More [of "CHR '']''" r1 r'] sep More l1 by simp
    next
      case (Closed r')
      then have "r = r'" using a x sep by simp
      then show ?thesis
        using parse_separator_Closed [of "CHR '']''" r1 r'] sep Closed l1 by simp
    qed
  qed
  have m: "length r \<le> length s" if a: "parse_members (Suc n) acc s = Inr (v, r)" for acc s v r
  proof -
    from a obtain k s1 x r1 sep where k: "parse_key s = Inr (k, s1)"
      and x: "parse_value n s1 = Inr (x, r1)"
      and sep: "parse_separator (CHR ''}'') r1 = Inr sep"
      by (auto split: sum.splits)
    have l1: "length r1 \<le> length s"
      using V [OF x] parse_key_length [OF k] by simp
    show ?thesis
    proof (cases sep)
      case (More r')
      then have "parse_members n (Map_set k x acc) r' = Inr (v, r)"
        using a k x sep by simp
      then have "length r \<le> length r'" by (rule M)
      then show ?thesis
        using parse_separator_More [of "CHR ''}''" r1 r'] sep More l1 by simp
    next
      case (Closed r')
      then have "r = r'" using a k x sep by simp
      then show ?thesis
        using parse_separator_Closed [of "CHR ''}''" r1 r'] sep Closed l1 by simp
    qed
  qed
  show ?case
    using v e m by blast
qed

lemma parse_value_length: "parse_value n s = Inr (v, r) \<Longrightarrow> length r \<le> length s"
  using parse_rest_length [of n] by blast

lemma parse_fuel:
  "(\<forall>s. 2 * length s < n \<longrightarrow> parse_value n s \<noteq> Inl (Failure f))
   \<and> (\<forall>acc s. 2 * length s + 1 < n \<longrightarrow> parse_elements n acc s \<noteq> Inl (Failure f))
   \<and> (\<forall>acc s. 2 * length s + 1 < n \<longrightarrow> parse_members n acc s \<noteq> Inl (Failure f))"
proof (induction n)
  case 0
  show ?case by simp
next
  case (Suc n)
  have V: "parse_value n s \<noteq> Inl (Failure f)" if "2 * length s < n" for s
    using Suc that by blast
  have E: "parse_elements n acc s \<noteq> Inl (Failure f)" if "2 * length s + 1 < n" for acc s
    using Suc that by blast
  have M: "parse_members n acc s \<noteq> Inl (Failure f)" if "2 * length s + 1 < n" for acc s
    using Suc that by blast
  have v: "parse_value (Suc n) s \<noteq> Inl (Failure f)" if a: "2 * length s < Suc n" for s
  proof (cases s)
    case Nil
    then show ?thesis by simp
  next
    case (Cons c t)
    have inner: "2 * length (d # t') + 1 < n" if "skip_ws t = d # t'" for d t'
      using that a Cons skip_ws_length [of t] by simp
    consider (obj) "c = CHR ''{''" | (arr) "c \<noteq> CHR ''{''" "c = CHR ''[''"
      | (str) "c \<noteq> CHR ''{''" "c \<noteq> CHR ''[''" "c = CHR 0x22"
      | (num) "c \<noteq> CHR ''{''" "c \<noteq> CHR ''[''" "c \<noteq> CHR 0x22" "c = CHR ''-'' \<or> is_digit c"
      | (lit) "c \<noteq> CHR ''{''" "c \<noteq> CHR ''[''" "c \<noteq> CHR 0x22" "\<not> (c = CHR ''-'' \<or> is_digit c)"
      by blast
    then show ?thesis
    proof cases
      case obj
      show ?thesis
      proof (cases "skip_ws t")
        case Nil
        then show ?thesis using Cons obj by simp
      next
        case (Cons d t')
        then show ?thesis
          using \<open>s = c # t\<close> obj M [OF inner [OF Cons], of "[]"] by simp
      qed
    next
      case arr
      show ?thesis
      proof (cases "skip_ws t")
        case Nil
        then show ?thesis using Cons arr by simp
      next
        case (Cons d t')
        then show ?thesis
          using \<open>s = c # t\<close> arr E [OF inner [OF Cons], of "[]"] by simp
      qed
    next
      case str
      then show ?thesis
        using Cons parse_chars_no_fuel [of "[]" t f] by (auto split: sum.splits)
    next
      case num
      then show ?thesis
        using Cons parse_number_no_fuel [of s f] by auto
    next
      case lit
      then show ?thesis
        using Cons parse_literal_no_fuel [of s f] by auto
    qed
  qed
  have e: "parse_elements (Suc n) acc s \<noteq> Inl (Failure f)" if a: "2 * length s + 1 < Suc n" for acc s
  proof (cases "parse_value n s")
    case (Inl err)
    then show ?thesis
      using V [of s] a by auto
  next
    case (Inr p)
    obtain x r1 where p: "p = (x, r1)" by (cases p)
    have l1: "length r1 \<le> length s"
      using Inr p parse_value_length by blast
    show ?thesis
    proof (cases "parse_separator (CHR '']'') r1")
      case (Inl err)
      then show ?thesis
        using Inr p parse_separator_no_fuel [of "CHR '']''" r1 f] by auto
    next
      case sep: (Inr q)
      show ?thesis
      proof (cases q)
        case (More r')
        then have "2 * length r' + 1 < n"
          using parse_separator_More [of "CHR '']''" r1 r'] sep l1 a by simp
        then show ?thesis
          using Inr p sep More E [of r' "acc @ [x]"] by simp
      next
        case (Closed r')
        then show ?thesis
          using Inr p sep by simp
      qed
    qed
  qed
  have m: "parse_members (Suc n) acc s \<noteq> Inl (Failure f)" if a: "2 * length s + 1 < Suc n" for acc s
  proof (cases "parse_key s")
    case (Inl err)
    then show ?thesis
      using parse_key_no_fuel [of s f] by auto
  next
    case key: (Inr kp)
    obtain k s1 where kp: "kp = (k, s1)" by (cases kp)
    have l0: "length s1 < length s"
      using key kp parse_key_length by blast
    show ?thesis
    proof (cases "parse_value n s1")
      case (Inl err)
      then show ?thesis
        using key kp V [of s1] l0 a by auto
    next
      case (Inr p)
      obtain x r1 where p: "p = (x, r1)" by (cases p)
      have l1: "length r1 \<le> length s1"
        using Inr p parse_value_length by blast
      show ?thesis
      proof (cases "parse_separator (CHR ''}'') r1")
        case (Inl err)
        then show ?thesis
          using key kp Inr p parse_separator_no_fuel [of "CHR ''}''" r1 f] by auto
      next
        case sep: (Inr q)
        show ?thesis
        proof (cases q)
          case (More r')
          then have "2 * length r' + 1 < n"
            using parse_separator_More [of "CHR ''}''" r1 r'] sep l1 l0 a by simp
          then show ?thesis
            using key kp Inr p sep More M [of r' "Map_set k x acc"] by simp
        next
          case (Closed r')
          then show ?thesis
            using key kp Inr p sep by simp
        qed
      qed
    qed
  qed
  show ?case
    using v e m by blast
qed

lemma parse_JSON_text_fuel: "parse_JSON_text s \<noteq> Inl (Failure f)"
proof -
  have "2 * length (skip_ws s) < 2 * length s + 2"
    using skip_ws_length [of s] by simp
  then have "parse_value (2 * length s + 2) (skip_ws s) \<noteq> Inl (Failure f)"
    using parse_fuel [of "2 * length s + 2" f] by blast
  then show ?thesis
    by (auto simp: parse_JSON_text_def split: sum.splits)
qed

section \<open>The facade on a Map\<close>

lemma JSON_stringify_returns: "\<exists>s. JSON_stringify nt v = Inr s"
  by (simp add: JSON_stringify_def)

lemma Endb_new_default:
  "Endb_new A nt NoArg no_options = Inr (default_options nt, MapStore (Some ''endb'') [])"
  by (simp add: Endb_new_def first_source_def no_options_def merged_options_def assign_def
      assign_default_def load_def truthy_def and_then_def set_namespace_def default_options_def)

lemma Endb_set_Map:
  "serialize opts v = Inr s \<Longrightarrow>
   Endb_set A opts k v (MapStore ns m) =
     Inr (Bool True, MapStore ns (Map_set (addKeyPrefix opts k) v m))"
  by (simp add: Endb_set_def store_set_def and_then_def)

lemma Endb_get_Map:
  "Endb_get A opts k (MapStore ns m) = Inr (Map_get (addKeyPrefix opts k) m)"
  by (simp add: Endb_get_def store_get_def and_then_def Let_def)

lemma Endb_delete_Map:
  "Endb_delete A opts k (MapStore ns m) =
     Inr (Bool (Map_has (addKeyPrefix opts k) m), MapStore ns (Map_remove (addKeyPrefix opts k) m))"
  by (simp add: Endb_delete_def store_delete_def Map_delete_def)

lemma Endb_has_Map:
  "Endb_has A opts k (MapStore ns m) = Inr (Bool (Map_has (addKeyPrefix opts k) m))"
  by (simp add: Endb_has_def)

lemma Endb_clear_Map: "Endb_clear A opts (MapStore ns m) = Inr (Undefined, MapStore ns [])"
  by (simp add: Endb_clear_def store_clear_def Map_clear_def)

lemma addKeyPrefix_inject: "addKeyPrefix opts k = addKeyPrefix opts k' \<longleftrightarrow> k = k'"
  by (simp add: addKeyPrefix_def)

section \<open>Set and get\<close>

text \<open>
  C1. An instance constructed without arguments has the default options and a fresh Map.
  With the default options, on a Map in any state, \<^verbatim>\<open>set(k, v)\<close> resolves to
  \<^verbatim>\<open>true\<close> for every key and every value, and \<^verbatim>\<open>get(k)\<close> on the store it leaves
  resolves to \<open>v\<close> itself.
\<close>

theorem set_then_get:
  "Endb_new A nt NoArg no_options = Inr (default_options nt, MapStore (Some ''endb'') [])
   \<and> Endb_set A (default_options nt) k v (MapStore ns m)
       = Inr (Bool True, MapStore ns (Map_set (''endb:'' @ k) v m))
   \<and> Endb_get A (default_options nt) k (MapStore ns (Map_set (''endb:'' @ k) v m)) = Inr v"
proof -
  obtain s where s: "serialize (default_options nt) v = Inr s"
    using JSON_stringify_returns [of nt v] by (auto simp: default_options_def)
  have p: "addKeyPrefix (default_options nt) k = ''endb:'' @ k"
    by (simp add: addKeyPrefix_def default_options_def)
  show ?thesis
    using Endb_set_Map [OF s, of A k ns m] Endb_new_default [of A nt]
    by (simp add: p Endb_get_Map Map_get_set)
qed

theorem set_then_get_witness:
  "Endb_set no_adapter (default_options integer_text) ''foo'' (Str ''bar'') (MapStore (Some ''endb'') [])
     = Inr (Bool True, MapStore (Some ''endb'') [(''endb:foo'', Str ''bar'')])
   \<and> Endb_get no_adapter (default_options integer_text) ''foo''
        (MapStore (Some ''endb'') [(''endb:foo'', Str ''bar'')]) = Inr (Str ''bar'')"
  using set_then_get [of no_adapter integer_text "''foo''" "Str ''bar''" "Some ''endb''" "[]"]
  by simp

section \<open>The key prefix\<close>

text \<open>Removing the prefix from a prefixed key gives the key back.\<close>

lemma removeKeyPrefix_addKeyPrefix: "removeKeyPrefix opts (addKeyPrefix opts k) = k"
  using String_replace_prefix [of "namespace opts @ '':''" k]
  by (simp add: addKeyPrefix_def removeKeyPrefix_def)

text \<open>
  On every store \<^verbatim>\<open>set\<close>, \<^verbatim>\<open>get\<close> and \<^verbatim>\<open>delete\<close> hand the store the key with one
  prefix, and so does \<^verbatim>\<open>has\<close> on a Map.
\<close>

lemma Endb_set_key:
  "Endb_set A opts k v st
     = and_then (serialize opts v) (\<lambda>s.
       and_then (store_set A (namespace opts @ '':'' @ k) v st) (\<lambda>st'. Inr (Bool True, st')))"
  by (simp add: Endb_set_def addKeyPrefix_def)

lemma Endb_get_key:
  "Endb_get A opts k st = store_get A (namespace opts @ '':'' @ k) st"
  by (cases "store_get A (namespace opts @ '':'' @ k) st")
    (simp_all add: Endb_get_def addKeyPrefix_def and_then_def)

lemma Endb_delete_key:
  "Endb_delete A opts k st = store_delete A (namespace opts @ '':'' @ k) st"
  by (simp add: Endb_delete_def addKeyPrefix_def)

lemma Endb_has_Map_key:
  "Endb_has A opts k (MapStore ns m) = Inr (Bool (Map_has (namespace opts @ '':'' @ k) m))"
  by (simp add: Endb_has_def addKeyPrefix_def)

text \<open>
  C8. On a store that is no Map, \<^verbatim>\<open>has(k)\<close> prefixes the key and then calls
  \<^verbatim>\<open>this.get\<close> with it, which prefixes it again: the store is asked for the key with
  the prefix twice. On a store of the caller's own, given to the constructor as the
  \<^verbatim>\<open>store\<close> option, \<^verbatim>\<open>set('foo', {})\<close> puts the object under \<^verbatim>\<open>'endb:foo'\<close>; then
  \<^verbatim>\<open>get('foo')\<close> resolves to the object and \<^verbatim>\<open>has('foo')\<close> to \<^verbatim>\<open>false\<close>.
\<close>

theorem has_prefixes_key_twice:
  "Endb_has A opts k (AdapterStore a)
     = and_then (a_get A (namespace opts @ '':'' @ namespace opts @ '':'' @ k) a)
         (\<lambda>data. Inr (Bool (typeof_object data)))
   \<and> Endb_new list_store nt NoArg (no_options\<lparr>o_store := Some (AdapterStore [])\<rparr>)
     = Inr (default_options nt, AdapterStore [])
   \<and> Endb_set list_store (default_options nt) ''foo'' (Obj []) (AdapterStore [])
     = Inr (Bool True, AdapterStore [(''endb:foo'', Obj [])])
   \<and> Endb_get list_store (default_options nt) ''foo'' (AdapterStore [(''endb:foo'', Obj [])])
     = Inr (Obj [])
   \<and> Endb_has list_store (default_options nt) ''foo'' (AdapterStore [(''endb:foo'', Obj [])])
     = Inr (Bool False)"
proof -
  have general: "Endb_has A opts k (AdapterStore a)
     = and_then (a_get A (namespace opts @ '':'' @ namespace opts @ '':'' @ k) a)
         (\<lambda>data. Inr (Bool (typeof_object data)))" for A :: "'b adapters" and opts k a
    by (cases "a_get A (namespace opts @ '':'' @ namespace opts @ '':'' @ k) a")
      (simp_all add: Endb_has_def Endb_get_def store_get_def addKeyPrefix_def and_then_def)
  have set: "Endb_set list_store (default_options nt) ''foo'' (Obj []) (AdapterStore [])
     = Inr (Bool True, AdapterStore [(''endb:foo'', Obj [])])"
    by (simp add: Endb_set_def default_options_def JSON_stringify_def and_then_def store_set_def
        addKeyPrefix_def list_store_def)
  have get: "Endb_get list_store (default_options nt) ''foo'' (AdapterStore [(''endb:foo'', Obj [])])
     = Inr (Obj [])"
    by (simp add: Endb_get_def default_options_def and_then_def store_get_def addKeyPrefix_def
        list_store_def)
  have has: "Endb_has list_store (default_options nt) ''foo'' (AdapterStore [(''endb:foo'', Obj [])])
     = Inr (Bool False)"
    by (simp add: general default_options_def and_then_def list_store_def typeof_object_def)
  have new: "Endb_new list_store nt NoArg (no_options\<lparr>o_store := Some (AdapterStore [])\<rparr>)
     = Inr (default_options nt, AdapterStore [])"
    by (simp add: Endb_new_def first_source_def no_options_def merged_options_def assign_def
        assign_default_def and_then_def set_namespace_def default_options_def list_store_def)
  show ?thesis
    using general [of A opts k a] new set get has by simp
qed

section \<open>Sequences of calls on a Map\<close>

lemma step_Map:
  "\<exists>m'. step A opts (MapStore ns m) c = MapStore ns m'
     \<and> (\<not> sets_key k c \<longrightarrow> \<not> Map_has (addKeyPrefix opts k) m \<longrightarrow> \<not> Map_has (addKeyPrefix opts k) m')"
proof (cases c)
  case (Set k' v)
  show ?thesis
  proof (cases "serialize opts v")
    case (Inl e)
    then show ?thesis
      using Set by (simp add: step_def Endb_set_def and_then_def)
  next
    case (Inr s)
    show ?thesis
      using Set Endb_set_Map [OF Inr, of A k' ns m]
      by (auto simp: step_def sets_key_def Map_has_set_other addKeyPrefix_inject)
  qed
next
  case (Delete k')
  then show ?thesis
    by (cases "k' = k")
      (auto simp: step_def Endb_delete_Map Map_has_remove Map_has_remove_other addKeyPrefix_inject)
next
  case Clear
  then show ?thesis
    by (simp add: step_def Endb_clear_Map)
qed

lemma run_Map:
  "\<forall>c\<in>set cs. \<not> sets_key k c \<Longrightarrow> \<not> Map_has (addKeyPrefix opts k) m \<Longrightarrow>
   \<exists>m'. run A opts cs (MapStore ns m) = MapStore ns m' \<and> \<not> Map_has (addKeyPrefix opts k) m'"
proof (induction cs arbitrary: m)
  case Nil
  then show ?case by (simp add: run_def)
next
  case (Cons c cs)
  obtain m1 where m1: "step A opts (MapStore ns m) c = MapStore ns m1"
    and h1: "\<not> Map_has (addKeyPrefix opts k) m1"
    using step_Map [of A opts ns m c k] Cons.prems by auto
  obtain m' where "run A opts cs (MapStore ns m1) = MapStore ns m'"
    and "\<not> Map_has (addKeyPrefix opts k) m'"
    using Cons.IH [OF _ h1] Cons.prems by auto
  then show ?case
    using m1 by (simp add: run_def)
qed

section \<open>Has\<close>

text \<open>
  C7. On a Map that starts empty, \<^verbatim>\<open>has(k)\<close> resolves to \<^verbatim>\<open>false\<close> after any
  sequence of modifying calls none of which is a \<^verbatim>\<open>set\<close> of \<open>k\<close>; and whenever
  \<^verbatim>\<open>set(k, v)\<close> resolves on a Map, \<^verbatim>\<open>has(k)\<close> on the store it leaves resolves to
  \<^verbatim>\<open>true\<close>.
\<close>

theorem has_before_and_after_set:
  "((\<forall>c\<in>set cs. \<not> sets_key k c) \<longrightarrow>
      Endb_has A opts k (run A opts cs (MapStore ns [])) = Inr (Bool False))
   \<and> (Endb_set A opts k v (MapStore ns m) = Inr (r, st') \<longrightarrow>
      Endb_has A opts k st' = Inr (Bool True))"
proof (intro conjI impI)
  assume "\<forall>c\<in>set cs. \<not> sets_key k c"
  then obtain m' where "run A opts cs (MapStore ns []) = MapStore ns m'"
    and "\<not> Map_has (addKeyPrefix opts k) m'"
    using run_Map [of cs k opts "[]" A ns] by auto
  then show "Endb_has A opts k (run A opts cs (MapStore ns [])) = Inr (Bool False)"
    by (simp add: Endb_has_Map)
next
  assume a: "Endb_set A opts k v (MapStore ns m) = Inr (r, st')"
  then obtain s where s: "serialize opts v = Inr s"
    by (cases "serialize opts v") (auto simp: Endb_set_def and_then_def)
  show "Endb_has A opts k st' = Inr (Bool True)"
    using a Endb_set_Map [OF s, of A k ns m] by (auto simp: Endb_has_Map Map_has_set)
qed

theorem has_before_and_after_set_witness:
  "Endb_has no_adapter (default_options integer_text) ''foo''
     (run no_adapter (default_options integer_text) [Set ''bar'' Null, Delete ''foo'', Clear]
        (MapStore (Some ''endb'') [])) = Inr (Bool False)
   \<and> Endb_set no_adapter (default_options integer_text) ''foo'' (Str ''bar'') (MapStore (Some ''endb'') [])
       = Inr (Bool True, MapStore (Some ''endb'') [(''endb:foo'', Str ''bar'')])
   \<and> Endb_has no_adapter (default_options integer_text) ''foo''
       (MapStore (Some ''endb'') [(''endb:foo'', Str ''bar'')]) = Inr (Bool True)"
proof -
  have s: "Endb_set no_adapter (default_options integer_text) ''foo'' (Str ''bar'') (MapStore (Some ''endb'') [])
       = Inr (Bool True, MapStore (Some ''endb'') [(''endb:foo'', Str ''bar'')])"
    by (simp add: Endb_set_def default_options_def JSON_stringify_def and_then_def store_set_def
        addKeyPrefix_def)
  have c: "\<forall>c\<in>set [Set ''bar'' Null, Delete ''foo'', Clear]. \<not> sets_key ''foo'' c"
    by (simp add: sets_key_def)
  show ?thesis
    using has_before_and_after_set [of "[Set ''bar'' Null, Delete ''foo'', Clear]" "''foo''"
        no_adapter "default_options integer_text" "Some ''endb''" "Str ''bar''" "[]" "Bool True"
        "MapStore (Some ''endb'') [(''endb:foo'', Str ''bar'')]"] s c
    by simp
qed

section \<open>Delete\<close>

text \<open>
  C6. On a Map, \<^verbatim>\<open>delete(k)\<close> resolves to \<^verbatim>\<open>true\<close> exactly when the Map has an
  entry for the prefixed key. After a \<^verbatim>\<open>set(k, v)\<close> that resolved, \<^verbatim>\<open>delete(k)\<close>
  resolves to \<^verbatim>\<open>true\<close> and \<^verbatim>\<open>get(k)\<close> to \<^verbatim>\<open>undefined\<close>; after any further
  modifying calls none of which is a \<^verbatim>\<open>set\<close> of \<open>k\<close>, \<^verbatim>\<open>delete(k)\<close> resolves to
  \<^verbatim>\<open>false\<close>, leaves the store as it is, and \<^verbatim>\<open>get(k)\<close> still resolves to
  \<^verbatim>\<open>undefined\<close>.
\<close>

theorem delete_once:
  assumes "Endb_set A opts k v (MapStore ns m) = Inr (r, st1)"
    and "\<forall>c\<in>set cs. \<not> sets_key k c"
  shows "Endb_delete A opts k (MapStore ns m)
           = Inr (Bool (Map_has (addKeyPrefix opts k) m),
                  MapStore ns (Map_remove (addKeyPrefix opts k) m))
       \<and> (\<exists>st2. Endb_delete A opts k st1 = Inr (Bool True, st2)
            \<and> Endb_get A opts k st2 = Inr Undefined
            \<and> Endb_delete A opts k (run A opts cs st2) = Inr (Bool False, run A opts cs st2)
            \<and> Endb_get A opts k (run A opts cs st2) = Inr Undefined)"
proof -
  let ?p = "addKeyPrefix opts k"
  obtain s where s: "serialize opts v = Inr s"
    using assms(1) by (cases "serialize opts v") (auto simp: Endb_set_def and_then_def)
  have st1: "st1 = MapStore ns (Map_set ?p v m)"
    using assms(1) Endb_set_Map [OF s, of A k ns m] by simp
  let ?m2 = "Map_remove ?p (Map_set ?p v m)"
  have d1: "Endb_delete A opts k st1 = Inr (Bool True, MapStore ns ?m2)"
    by (simp add: st1 Endb_delete_Map Map_has_set)
  have g1: "Endb_get A opts k (MapStore ns ?m2) = Inr Undefined"
    by (simp add: Endb_get_Map Map_get_absent Map_has_remove)
  obtain m3 where m3: "run A opts cs (MapStore ns ?m2) = MapStore ns m3"
    and h3: "\<not> Map_has ?p m3"
    using run_Map [OF assms(2), of opts ?m2 A ns] by (auto simp: Map_has_remove)
  have r3: "Map_remove ?p m3 = m3"
    using h3 by (induction m3) (auto split: if_splits)
  have d2: "Endb_delete A opts k (run A opts cs (MapStore ns ?m2))
              = Inr (Bool False, run A opts cs (MapStore ns ?m2))"
    by (simp add: m3 Endb_delete_Map h3 r3)
  have g2: "Endb_get A opts k (run A opts cs (MapStore ns ?m2)) = Inr Undefined"
    by (simp add: m3 Endb_get_Map Map_get_absent h3)
  show ?thesis
    using d1 g1 d2 g2 by (simp add: Endb_delete_Map)
qed

lemma set_foo_bar:
  "Endb_set A (default_options nt) ''foo'' (Str ''bar'') (MapStore ns [])
     = Inr (Bool True, MapStore ns [(''endb:foo'', Str ''bar'')])"
  by (simp add: Endb_set_def default_options_def JSON_stringify_def and_then_def store_set_def
      addKeyPrefix_def)

theorem delete_once_witness:
  "Endb_delete no_adapter (default_options integer_text) ''foo''
       (MapStore (Some ''endb'') [(''endb:foo'', Str ''bar'')])
     = Inr (Bool True, MapStore (Some ''endb'') [])
   \<and> Endb_get no_adapter (default_options integer_text) ''foo'' (MapStore (Some ''endb'') [])
     = Inr Undefined
   \<and> Endb_delete no_adapter (default_options integer_text) ''foo''
       (run no_adapter (default_options integer_text) [Delete ''foo'', Set ''baz'' Null]
          (MapStore (Some ''endb'') []))
     = Inr (Bool False, MapStore (Some ''endb'') [(''endb:baz'', Null)])"
proof -
  have c: "\<forall>c\<in>set [Delete ''foo'', Set ''baz'' Null]. \<not> sets_key ''foo'' c"
    by (simp add: sets_key_def)
  have r: "run no_adapter (default_options integer_text) [Delete ''foo'', Set ''baz'' Null]
          (MapStore (Some ''endb'') []) = MapStore (Some ''endb'') [(''endb:baz'', Null)]"
    by (simp add: run_def step_def Endb_delete_Map Endb_set_def default_options_def
        JSON_stringify_def and_then_def store_set_def addKeyPrefix_def)
  show ?thesis
    using delete_once [OF set_foo_bar c, of no_adapter integer_text "Some ''endb''"] r
    by (auto simp: Endb_delete_Map addKeyPrefix_def default_options_def)
qed

section \<open>Clear\<close>

text \<open>
  C10. On a Map, \<^verbatim>\<open>clear()\<close> removes every entry, whatever prefix its key carries:
  afterwards an instance with any other namespace on the same store finds no key and no
  element.
\<close>

theorem clear_removes_every_entry:
  "Endb_clear A opts (MapStore ns m) = Inr (Undefined, MapStore ns [])
   \<and> Endb_has A opts' k (MapStore ns []) = Inr (Bool False)
   \<and> Endb_get A opts' k (MapStore ns []) = Inr Undefined
   \<and> Endb_all A opts' (MapStore ns []) = Inr (Arr [])"
  by (simp add: Endb_clear_Map Endb_has_Map Endb_get_Map Endb_all_def and_then_def)

theorem clear_removes_every_entry_witness:
  "Endb_has no_adapter ((default_options integer_text)\<lparr>namespace := ''members''\<rparr>) ''bar''
       (MapStore (Some ''users'') [(''members:bar'', Str ''foo''), (''users:foo'', Str ''bar'')])
     = Inr (Bool True)
   \<and> Endb_clear no_adapter ((default_options integer_text)\<lparr>namespace := ''users''\<rparr>)
       (MapStore (Some ''users'') [(''members:bar'', Str ''foo''), (''users:foo'', Str ''bar'')])
     = Inr (Undefined, MapStore (Some ''users'') [])
   \<and> Endb_has no_adapter ((default_options integer_text)\<lparr>namespace := ''members''\<rparr>) ''bar''
       (MapStore (Some ''users'') []) = Inr (Bool False)"
proof -
  have before: "Endb_has no_adapter ((default_options integer_text)\<lparr>namespace := ''members''\<rparr>)
       ''bar'' (MapStore (Some ''users'') [(''members:bar'', Str ''foo''), (''users:foo'', Str ''bar'')])
     = Inr (Bool True)"
    by (simp add: Endb_has_Map addKeyPrefix_def)
  show ?thesis
    using before
      clear_removes_every_entry [of no_adapter
        "(default_options integer_text)\<lparr>namespace := ''users''\<rparr>" "Some ''users''"
        "[(''members:bar'', Str ''foo''), (''users:foo'', Str ''bar'')]"
        "(default_options integer_text)\<lparr>namespace := ''members''\<rparr>" "''bar''"]
    by simp
qed

section \<open>The serialize hook in set\<close>

text \<open>
  C4. When the serialize hook returns, \<^verbatim>\<open>set(key, value)\<close> is the store's own
  \<^verbatim>\<open>set\<close> called with the prefixed key and the value as given: replacing the hook
  by any other changes nothing but whether the call is rejected, and a Map holds the
  value as given under the prefixed key.
\<close>

theorem set_passes_raw_value:
  assumes "serialize opts v = Inr s"
  shows "Endb_set A opts key v st
           = and_then (store_set A (addKeyPrefix opts key) v st) (\<lambda>st'. Inr (Bool True, st'))
       \<and> Endb_set A (opts\<lparr>serialize := f\<rparr>) key v st
           = and_then (f v) (\<lambda>s'. Endb_set A opts key v st)
       \<and> Endb_get A opts key (MapStore ns (Map_set (addKeyPrefix opts key) v m)) = Inr v"
  using assms
  by (simp add: Endb_set_def and_then_def addKeyPrefix_def Endb_get_Map Map_get_set)

theorem set_passes_raw_value_witness:
  "serialize (default_options integer_text) (Str ''bar'')
     = Inr (Str [CHR 0x22, CHR ''b'', CHR ''a'', CHR ''r'', CHR 0x22])
   \<and> Endb_set no_adapter (default_options integer_text) ''foo'' (Str ''bar'') (MapStore (Some ''endb'') [])
     = Inr (Bool True, MapStore (Some ''endb'') [(''endb:foo'', Str ''bar'')])"
proof -
  have s: "serialize (default_options integer_text) (Str ''bar'')
      = Inr (Str [CHR 0x22, CHR ''b'', CHR ''a'', CHR ''r'', CHR 0x22])"
    by code_simp
  have p: "addKeyPrefix (default_options integer_text) ''foo'' = ''endb:foo''"
    by (simp add: addKeyPrefix_def default_options_def)
  have "Endb_set no_adapter (default_options integer_text) ''foo'' (Str ''bar'')
          (MapStore (Some ''endb'') [])
        = and_then (store_set no_adapter (addKeyPrefix (default_options integer_text) ''foo'')
            (Str ''bar'') (MapStore (Some ''endb'') [])) (\<lambda>st'. Inr (Bool True, st'))"
    using set_passes_raw_value [OF s] by (rule conjunct1)
  then have "Endb_set no_adapter (default_options integer_text) ''foo'' (Str ''bar'')
          (MapStore (Some ''endb'') [])
        = Inr (Bool True, MapStore (Some ''endb'') [(''endb:foo'', Str ''bar'')])"
    by (simp add: p store_set_def and_then_def)
  then show ?thesis
    by (rule conjI [OF s])
qed

section \<open>Random numbers\<close>

lemma nearest_integer_bounds:
  assumes "0 \<le> x" and "x \<le> n"
  shows "0 \<le> nearest_integer x" and "nearest_integer x \<le> nearest_integer n"
    and "of_int \<lfloor>n\<rfloor> = n \<Longrightarrow> of_int (nearest_integer x) \<le> n"
proof -
  show "0 \<le> nearest_integer x"
    using assms(1) by (simp add: nearest_integer_def)
  show le: "nearest_integer x \<le> nearest_integer n"
    using assms(2) by (simp add: nearest_integer_def floor_mono)
  assume i: "of_int \<lfloor>n\<rfloor> = n"
  have "nearest_integer n = \<lfloor>n\<rfloor>"
    using i unfolding nearest_integer_def by linarith
  then have "(of_int (nearest_integer n) :: real) = n"
    using i by simp
  then show "of_int (nearest_integer x) \<le> n"
    using le by (metis of_int_le_iff)
qed

text \<open>The product of a draw and a finite operand that is not negative: no overflow.\<close>

lemma Number_times_draw:
  assumes "0 \<le> r" and "r < 1" and "0 \<le> n" and "is_double n"
  shows "Number_times (Finite r) (Finite n) = Finite (fl (r * n))"
    and "0 \<le> fl (r * n)" and "fl (r * n) \<le> n"
proof -
  have le: "r * n \<le> n"
    using assms by (simp add: mult_left_le_one_le)
  have p: "0 \<le> r * n"
    using assms by simp
  show 0: "0 \<le> fl (r * n)"
    using p by (rule fl_nonneg)
  show n: "fl (r * n) \<le> n"
    using p le assms(4) by (rule fl_le_double)
  have "n < 2 ^ 1024"
    using double_less_max [OF assms(4)] by linarith
  then have "fl (r * n) < 2 ^ 1024"
    using n by linarith
  moreover have "\<not> fl (r * n) \<le> - (2 ^ 1024)"
    using 0 by (smt (verit) zero_less_power)
  ultimately show "Number_times (Finite r) (Finite n) = Finite (fl (r * n))"
    by (simp add: Number_of_real_def)
qed

text \<open>
  C9, as the code has it. For a draw \<open>0 \<le> r < 1\<close> and a finite operand \<open>n \<ge> 0\<close>,
  \<^verbatim>\<open>math(k, 'random', n)\<close> (or \<^verbatim>\<open>'rand'\<close>) is \<^verbatim>\<open>set\<close> of \<open>k\<close> and the integer nearest
  to the double product of \<open>r\<close> and \<open>n\<close>; with the default options on a Map it resolves
  to \<^verbatim>\<open>true\<close> and stores that integer, which lies between \<open>0\<close> and the integer nearest
  to \<open>n\<close>, and so between \<open>0\<close> and \<open>n\<close> when \<open>n\<close> is an integer.
\<close>

theorem math_random_range:
  assumes "0 \<le> r" "r < 1" "0 \<le> n" "is_double n"
    and "operation = ''random'' \<or> operation = ''rand''"
  shows "Endb_math A U opts r k operation (Finite n) st
           = Endb_set A opts k (Num (Finite (of_int (nearest_integer (fl (r * n)))))) st
       \<and> Endb_math A U (default_options nt) r k operation (Finite n) (MapStore ns m)
           = Inr (Bool True,
                  MapStore ns
                    (Map_set (''endb:'' @ k) (Num (Finite (of_int (nearest_integer (fl (r * n)))))) m))
       \<and> 0 \<le> nearest_integer (fl (r * n))
       \<and> nearest_integer (fl (r * n)) \<le> nearest_integer n
       \<and> (of_int \<lfloor>n\<rfloor> = n \<longrightarrow> of_int (nearest_integer (fl (r * n))) \<le> n)"
proof -
  let ?v = "Num (Finite (of_int (nearest_integer (fl (r * n)))))"
  note t = Number_times_draw [OF assms(1-4)]
  have math: "Endb_math A U opts r k operation (Finite n) st = Endb_set A opts k ?v st"
    for A :: "'b adapters" and opts st
    using assms(5) t(1) by (auto simp: Endb_math_def)
  obtain s where s: "serialize (default_options nt) ?v = Inr s"
    using JSON_stringify_returns by (auto simp: default_options_def)
  have p: "addKeyPrefix (default_options nt) k = ''endb:'' @ k"
    by (simp add: addKeyPrefix_def default_options_def)
  have stored: "Endb_math A U (default_options nt) r k operation (Finite n) (MapStore ns m)
           = Inr (Bool True, MapStore ns (Map_set (''endb:'' @ k) ?v m))"
    using Endb_set_Map [OF s, of A k ns m] by (simp add: math p)
  show ?thesis
    using math [of A opts st] stored nearest_integer_bounds [OF t(2) t(3)] by simp
qed

lemma nearest_integer_examples:
  "nearest_integer (5 / 2) = 3" "nearest_integer (9 / 4) = 2" "nearest_integer (7 / 2) = 4"
  "nearest_integer (9 / 16) = 1"
  unfolding nearest_integer_def by linarith+

text \<open>
  Three draws for the operand \<open>5\<close> or \<open>3\<close>: a half goes upwards (\<open>2.5\<close> to \<open>3\<close>), less
  than a half goes downwards (\<open>2.25\<close> to \<open>2\<close>), and the product is the double product (the
  double nearest to \<open>0.7\<close>, times \<open>5\<close>, is \<open>3.5\<close> as a double and goes to \<open>4\<close>, where
  the exact product lies below \<open>3.5\<close>).
\<close>

theorem math_random_range_witness:
  "Endb_math no_adapter no_util (default_options integer_text) (1 / 2) ''k'' ''random'' (Finite 5)
       (MapStore (Some ''endb'') [])
     = Inr (Bool True, MapStore (Some ''endb'') [(''endb:k'', Num (Finite 3))])
   \<and> Endb_math no_adapter no_util (default_options integer_text) (3 / 4) ''k'' ''rand'' (Finite 3)
       (MapStore (Some ''endb'') [])
     = Inr (Bool True, MapStore (Some ''endb'') [(''endb:k'', Num (Finite 2))])
   \<and> Endb_math no_adapter no_util (default_options integer_text) (6305039478318694 / 2 ^ 53)
       ''k'' ''random'' (Finite 5) (MapStore (Some ''endb'') [])
     = Inr (Bool True, MapStore (Some ''endb'') [(''endb:k'', Num (Finite 4))])"
proof -
  have o: "''random'' = ''random'' \<or> ''random'' = ''rand''" "''rand'' = ''random'' \<or> ''rand'' = ''rand''"
    by simp_all
  have h1: "(0::real) \<le> 1 / 2" "(1 / 2 :: real) < 1" "(0::real) \<le> 5"
    by simp_all
  have f1: "fl (1 / 2 * 5) = 5 / 2"
    using fl_exact [OF is_double_examples(4)] by simp
  have "Endb_math no_adapter no_util (default_options integer_text) (1 / 2) ''k'' ''random''
          (Finite 5) (MapStore (Some ''endb'') [])
        = Inr (Bool True,
               MapStore (Some ''endb'')
                 (Map_set (''endb:'' @ ''k'')
                    (Num (Finite (of_int (nearest_integer (fl (1 / 2 * 5)))))) []))"
    using math_random_range [OF h1 is_double_examples(5) o(1), of no_adapter no_util
        "default_options integer_text" "''k''" "MapStore (Some ''endb'') []" integer_text
        "Some ''endb''" "[]"]
    by (rule conjunct1 [OF conjunct2])
  then have 1: "Endb_math no_adapter no_util (default_options integer_text) (1 / 2) ''k''
       ''random'' (Finite 5) (MapStore (Some ''endb'') [])
     = Inr (Bool True, MapStore (Some ''endb'') [(''endb:k'', Num (Finite 3))])"
    by (simp only: f1 nearest_integer_examples) simp
  have h2: "(0::real) \<le> 3 / 4" "(3 / 4 :: real) < 1" "(0::real) \<le> 3"
    by simp_all
  have f2: "fl (3 / 4 * 3) = 9 / 4"
    using fl_exact [OF is_double_examples(6)] by simp
  have "Endb_math no_adapter no_util (default_options integer_text) (3 / 4) ''k'' ''rand''
          (Finite 3) (MapStore (Some ''endb'') [])
        = Inr (Bool True,
               MapStore (Some ''endb'')
                 (Map_set (''endb:'' @ ''k'')
                    (Num (Finite (of_int (nearest_integer (fl (3 / 4 * 3)))))) []))"
    using math_random_range [OF h2 is_double_examples(1) o(2), of no_adapter no_util
        "default_options integer_text" "''k''" "MapStore (Some ''endb'') []" integer_text
        "Some ''endb''" "[]"]
    by (rule conjunct1 [OF conjunct2])
  then have 2: "Endb_math no_adapter no_util (default_options integer_text) (3 / 4) ''k''
       ''rand'' (Finite 3) (MapStore (Some ''endb'') [])
     = Inr (Bool True, MapStore (Some ''endb'') [(''endb:k'', Num (Finite 2))])"
    by (simp only: f2 nearest_integer_examples) simp
  have h3: "(0::real) \<le> 6305039478318694 / 2 ^ 53" "(6305039478318694 / 2 ^ 53 :: real) < 1"
    by simp_all
  have "Endb_math no_adapter no_util (default_options integer_text) (6305039478318694 / 2 ^ 53)
          ''k'' ''random'' (Finite 5) (MapStore (Some ''endb'') [])
        = Inr (Bool True,
               MapStore (Some ''endb'')
                 (Map_set (''endb:'' @ ''k'')
                    (Num (Finite (of_int (nearest_integer (fl (6305039478318694 / 2 ^ 53 * 5))))))
                    []))"
    using math_random_range [OF h3 h1(3) is_double_examples(5) o(1), of no_adapter no_util
        "default_options integer_text" "''k''" "MapStore (Some ''endb'') []" integer_text
        "Some ''endb''" "[]"]
    by (rule conjunct1 [OF conjunct2])
  then have 3: "Endb_math no_adapter no_util (default_options integer_text)
       (6305039478318694 / 2 ^ 53) ''k'' ''random'' (Finite 5) (MapStore (Some ''endb'') [])
     = Inr (Bool True, MapStore (Some ''endb'') [(''endb:k'', Num (Finite 4))])"
    by (simp only: fl_tie nearest_integer_examples) simp
  show ?thesis
    using 1 2 3 by (intro conjI)
qed

text \<open>
  For an operand that is not an integer the stored number can exceed it: the draw
  \<open>3/4\<close> and the operand \<open>3/4\<close>, both doubles, have the exact product \<open>9/16\<close> and
  store \<open>1\<close>.
\<close>

lemma fl_nine_sixteenths: "fl (3 / 4 * (3 / 4)) = 9 / 16"
  using fl_exact [OF is_double_examples(3)] by simp

theorem math_random_above_operand:
  "is_double (3 / 4)
   \<and> Endb_math no_adapter no_util (default_options integer_text) (3 / 4) ''k'' ''random''
       (Finite (3 / 4)) (MapStore (Some ''endb'') [])
     = Inr (Bool True, MapStore (Some ''endb'') [(''endb:k'', Num (Finite 1))])
   \<and> \<not> (1 :: real) \<le> 3 / 4"
proof -
  have t: "Number_times (Finite (3 / 4)) (Finite (3 / 4)) = Finite (fl (3 / 4 * (3 / 4)))"
    by (rule Number_times_draw(1)) (simp_all add: is_double_examples)
  have v: "Math_round (Number_times (Finite (3 / 4)) (Finite (3 / 4))) = Finite 1"
    by (simp only: t fl_nine_sixteenths Math_round.simps nearest_integer_examples(4)) simp
  have "Endb_math no_adapter no_util (default_options integer_text) (3 / 4) ''k'' ''random''
       (Finite (3 / 4)) (MapStore (Some ''endb'') [])
     = Inr (Bool True, MapStore (Some ''endb'') [(''endb:k'', Num (Finite 1))])"
    by (simp add: Endb_math_def v Endb_set_def default_options_def JSON_stringify_def
        and_then_def store_set_def addKeyPrefix_def del: Number_times.simps)
  then show ?thesis
    using is_double_examples(2) by simp
qed

text \<open>
  The product is the double product: the double nearest to \<open>0.7\<close> times \<open>5\<close> is
  exactly \<open>3.5\<close> as a double (its real product lies below), and the call stores \<open>4\<close>.
\<close>

lemma math_random_tie:
  "Math_round (Number_times (Finite (6305039478318694 / 2 ^ 53)) (Finite 5)) = Finite 4"
proof -
  have t: "Number_times (Finite (6305039478318694 / 2 ^ 53)) (Finite 5)
             = Finite (fl (6305039478318694 / 2 ^ 53 * 5))"
    by (rule Number_times_draw(1)) (simp_all add: is_double_examples)
  show ?thesis
    by (simp only: t fl_tie Math_round.simps nearest_integer_examples) simp
qed

section \<open>Adapter resolution\<close>

lemma adapters_get_NoProperty:
  "name \<notin> fst ` set adapters_table \<Longrightarrow> name \<notin> set Object_prototype_names \<Longrightarrow>
   adapters_get name = NoProperty"
proof -
  assume "name \<notin> fst ` set adapters_table" and n: "name \<notin> set Object_prototype_names"
  then have "map_of adapters_table name = None"
    by (simp add: map_of_eq_None_iff)
  then show ?thesis
    using n by (simp add: adapters_get_def)
qed

lemma load_fallback:
  "\<not> truthy (adapter opts) \<Longrightarrow>
   \<not> truthy (uri opts) \<or> adapters_get (scheme (string_of (uri opts))) = NoProperty \<Longrightarrow>
   load A opts = Inr (MapStore None [])"
  by (auto simp: load_def)

text \<open>
  Without a store, without an adapter, and with a URI that is absent, empty or of a
  scheme that is no property of the mapping, the constructor ends on a fresh Map that
  carries the namespace.
\<close>

lemma Endb_new_fallback:
  assumes "assign (o_store (first_source arg)) (o_store o2) = None"
    and "opts = merged_options nt (first_source arg) o2"
    and "\<not> truthy (adapter opts)"
    and "\<not> truthy (uri opts) \<or> adapters_get (scheme (string_of (uri opts))) = NoProperty"
  shows "Endb_new A nt arg o2 = Inr (opts, MapStore (Some (namespace opts)) [])"
  using assms load_fallback [of opts A]
  by (simp add: Endb_new_def Let_def and_then_def set_namespace_def)

text \<open>
  C5. A scheme that names a property inherited from \<^verbatim>\<open>Object.prototype\<close> is outside the
  adapter mapping, yet the lookup finds the inherited property, and the constructor
  throws instead of falling back to a Map.
\<close>

theorem constructor_inherited_name_throws:
  "Endb_new A nt (UriString ''constructor://x'') no_options = Inl TypeError"
  by (simp add: Endb_new_def first_source_def no_options_def merged_options_def assign_def
      assign_default_def load_def truthy_def string_of_def scheme_def adapters_get_def
      adapters_table_def Object_prototype_names_def and_then_def)

lemma constructor_unknown_scheme:
  "Endb_new A nt (UriString ''memory://x'') no_options
     = Inr ((default_options nt)\<lparr>uri := Some ''memory://x''\<rparr>, MapStore (Some ''endb'') [])"
  by (simp add: Endb_new_def first_source_def no_options_def merged_options_def assign_def
      assign_default_def load_def truthy_def string_of_def scheme_def adapters_get_def
      adapters_table_def Object_prototype_names_def and_then_def set_namespace_def
      default_options_def)

section \<open>All and find\<close>

text \<open>
  C2. With the default options on a fresh Map, \<^verbatim>\<open>set('foo', 'bar')\<close> resolves to
  \<^verbatim>\<open>true\<close> and stores the string itself; \<^verbatim>\<open>all()\<close> then hands the stored string to
  \<^verbatim>\<open>JSON.parse\<close> and is rejected with its SyntaxError.
\<close>

theorem all_after_set_rejects:
  "Endb_set A (default_options nt) ''foo'' (Str ''bar'') (MapStore (Some ''endb'') [])
     = Inr (Bool True, MapStore (Some ''endb'') [(''endb:foo'', Str ''bar'')])
   \<and> Endb_all A (default_options nt) (MapStore (Some ''endb'') [(''endb:foo'', Str ''bar'')])
     = Inl SyntaxError"
proof -
  have p: "JSON_parse nt (Str ''bar'') = Inl SyntaxError"
    by code_simp
  have "Endb_all A (default_options nt) (MapStore (Some ''endb'') [(''endb:foo'', Str ''bar'')])
     = Inl SyntaxError"
    by (simp add: Endb_all_def default_options_def p and_then_def)
  moreover have "Endb_set A (default_options nt) ''foo'' (Str ''bar'') (MapStore (Some ''endb'') [])
     = Inr (Bool True, MapStore (Some ''endb'') [(''endb:foo'', Str ''bar'')])"
    by (simp add: Endb_set_def default_options_def JSON_stringify_def and_then_def store_set_def
      addKeyPrefix_def)
  ultimately show ?thesis by simp
qed

lemma find_loop_elements:
  "find_loop fn (map (\<lambda>(k, v). element k v) kvs)
     = Inr (case find (\<lambda>(k, v). fn v) kvs of None \<Rightarrow> Undefined | Some (k, v) \<Rightarrow> element k v)"
  by (induction kvs) (auto simp: element_def get_value_def and_then_def)

text \<open>
  Where \<^verbatim>\<open>all()\<close> resolves to an array of records, the loop of \<^verbatim>\<open>find\<close> returns the
  first record whose value satisfies the callback, the record and not its value.
\<close>

lemma Endb_find_record:
  "Endb_all A opts st = Inr (Arr (map (\<lambda>(k, v). element k v) kvs)) \<Longrightarrow>
   Endb_find A opts fn st
     = Inr (case find (\<lambda>(k, v). fn v) kvs of None \<Rightarrow> Undefined | Some (k, v) \<Rightarrow> element k v)"
  by (simp add: Endb_find_def and_then_def iterate_def find_loop_elements)

text \<open>
  C3. With the default options on a fresh Map, \<^verbatim>\<open>set('foo', 'bar')\<close> resolves to
  \<^verbatim>\<open>true\<close> and the stored value satisfies the callback \<^verbatim>\<open>v => v === 'bar'\<close>; yet
  \<^verbatim>\<open>find\<close> with that callback is rejected with the SyntaxError of \<^verbatim>\<open>all()\<close>.
\<close>

theorem find_after_set_rejects:
  "Endb_set A (default_options nt) ''foo'' (Str ''bar'') (MapStore (Some ''endb'') [])
     = Inr (Bool True, MapStore (Some ''endb'') [(''endb:foo'', Str ''bar'')])
   \<and> is_bar (Str ''bar'')
   \<and> Endb_find A (default_options nt) is_bar
       (MapStore (Some ''endb'') [(''endb:foo'', Str ''bar'')])
     = Inl SyntaxError"
proof -
  have p: "JSON_parse nt (Str ''bar'') = Inl SyntaxError"
    by code_simp
  have "Endb_find A (default_options nt) is_bar
       (MapStore (Some ''endb'') [(''endb:foo'', Str ''bar'')]) = Inl SyntaxError"
    by (simp add: Endb_find_def Endb_all_def default_options_def p and_then_def)
  moreover have "Endb_set A (default_options nt) ''foo'' (Str ''bar'') (MapStore (Some ''endb'') [])
     = Inr (Bool True, MapStore (Some ''endb'') [(''endb:foo'', Str ''bar'')])"
    by (simp add: Endb_set_def default_options_def JSON_stringify_def and_then_def store_set_def
      addKeyPrefix_def)
  ultimately show ?thesis
    by (simp add: is_bar_def)
qed

end
